theory Spec2Isabelle
  imports Complex_Main "HOL-Library.Word"
begin

section \<open>Low-level array interface to the SAC file format (obspy/io/sac/arrayio.py)\<close>

subsection \<open>Exceptions\<close>

text \<open>
  Every exception the module raises or lets escape is a value. \<open>SacIOError\<close> is the
  specification's FormatError, \<open>ValueError\<close> its InvalidArgument and
  \<open>SacInvalidContentError\<close> its ContentError; the string is the message, without
  its formatted arguments.
\<close>

datatype error =
    ValueError string
  | IndexError
  | NameError string
  | TypeError
  | OverflowError
  | UnicodeError
  | OSError
  | AttributeError
  | SacIOError string
  | SacInvalidContentError string

subsection \<open>The header tables (module \<open>header\<close>, imported as HD)\<close>

text \<open>
  The tables of obspy/io/sac/header.py are not part of the sources at hand, so the model
  takes them as a parameter \<open>HD\<close>: the ordered field names of the three header
  arrays, the null value of each array kind, and the enumerated fields, each with the integer
  codes it accepts. \<open>'f\<close> is the type of single-precision values.
\<close>

record 'f header_tables =
  FLOATHDRS :: "string list"
  INTHDRS :: "string list"
  STRHDRS :: "string list"
  FNULL :: 'f
  INULL :: int
  SNULL :: string
  ACCEPTED_VALS :: "(string \<times> int list) list"

text \<open>\<open>tuple.index\<close>: the first position of an item; \<open>None\<close> stands for its ValueError.\<close>

fun index_of :: "'a list \<Rightarrow> 'a \<Rightarrow> nat option" where
  "index_of [] x = None"
| "index_of (y # ys) x = (if y = x then Some 0 else map_option Suc (index_of ys x))"

definition startswith :: "string \<Rightarrow> string \<Rightarrow> bool" where
  "startswith s p = (take (length p) s = p)"

subsection \<open>NumPy arrays\<close>

text \<open>
  A numeric array is its dtype's byte order and its elements. The byte order is the one the
  elements are stored in: \<open>'<'\<close> is \<open>Little\<close>, \<open>'>'\<close> is \<open>Big\<close>, and \<open>'='\<close> is
  the platform's order (\<open>sys.byteorder\<close>, the parameter \<open>native\<close>). An array of dtype
  \<open>|S8\<close> has no byte order and is the list of its elements; an element read from it is
  the eight stored bytes without their trailing NUL bytes.
\<close>

datatype endian = Little | Big

record 'a ndarray =
  dtype_order :: endian
  elems :: "'a list"

definition dtype_order_of :: "endian \<Rightarrow> string \<Rightarrow> error + endian" where
  "dtype_order_of native c =
     (if c = ''<'' then Inr Little
      else if c = ''>'' then Inr Big
      else if c = ''='' \<or> c = ''|'' \<or> c = [] then Inr native
      else Inl TypeError)"

definition rstrip_nul :: "string \<Rightarrow> string" where
  "rstrip_nul s = rev (dropWhile (\<lambda>c. c = CHR 0x00) (rev s))"

definition S8 :: "string \<Rightarrow> string" where
  "S8 b = rstrip_nul (take 8 b)"

datatype 'f harray = HF "'f ndarray" | HI "int ndarray" | HS "string list"

subsection \<open>init_header_arrays\<close>

text \<open>The loop \<open>for i, hdr in enumerate(HD.INTHDRS): if hdr.startswith('l'): hi[i] = 0\<close>.\<close>

fun set_logicals :: "string list \<Rightarrow> nat \<Rightarrow> int list \<Rightarrow> error + int list" where
  "set_logicals [] i hi = Inr hi"
| "set_logicals (hdr # hdrs) i hi =
     (if startswith hdr ''l''
      then (if i < length hi then set_logicals hdrs (Suc i) (hi[i := 0]) else Inl IndexError)
      else set_logicals hdrs (Suc i) hi)"

text \<open>One round of the loop over \<open>arrays\<close>: the array appended for \<open>itype\<close>.\<close>

definition init_array :: "'f header_tables \<Rightarrow> endian \<Rightarrow> string \<Rightarrow> string \<Rightarrow> error + 'f harray" where
  "init_array HD native itype byteorder =
     (if itype = ''float'' then
        (case dtype_order_of native byteorder of
           Inl e \<Rightarrow> Inl e
         | Inr bo \<Rightarrow> Inr (HF \<lparr>dtype_order = bo, elems = replicate 70 (FNULL HD)\<rparr>))
      else if itype = ''int'' then
        (case dtype_order_of native byteorder of
           Inl e \<Rightarrow> Inl e
         | Inr bo \<Rightarrow>
            (case set_logicals (INTHDRS HD) 0 (replicate 40 (INULL HD)) of
               Inl e \<Rightarrow> Inl e
             | Inr hi \<Rightarrow>
                (case index_of (INTHDRS HD) ''lcalda'' of
                   None \<Rightarrow> Inl (ValueError ''tuple.index(x): x not in tuple'')
                 | Some k \<Rightarrow>
                    if k < length hi
                    then Inr (HI \<lparr>dtype_order = bo, elems = hi[k := 1]\<rparr>)
                    else Inl IndexError)))
      else if itype = ''str'' then Inr (HS (replicate 24 (S8 (SNULL HD))))
      else Inl (ValueError ''Unrecognized header array type''))"

fun init_header_arrays ::
  "'f header_tables \<Rightarrow> endian \<Rightarrow> string list \<Rightarrow> string \<Rightarrow> error + 'f harray list" where
  "init_header_arrays HD native [] byteorder = Inr []"
| "init_header_arrays HD native (itype # arrays) byteorder =
     (case init_array HD native itype byteorder of
        Inl e \<Rightarrow> Inl e
      | Inr a \<Rightarrow>
         (case init_header_arrays HD native arrays byteorder of
            Inl e \<Rightarrow> Inl e
          | Inr out \<Rightarrow> Inr (a # out)))"


subsection \<open>An instance of the header tables\<close>

text \<open>
  Modelled from the spec: the tables of obspy/io/sac/header.py (FLOATHDRS, INTHDRS, STRHDRS,
  FNULL, INULL, SNULL, ACCEPTED_VALS) are missing from the sources. This instance
  is the SAC header layout the specification describes (70 float, 40 int and 24 string
  fields, null values -12345.0, -12345 and \<open>'-12345  '\<close>); it agrees with every position
  the module itself fixes: \<open>npts\<close> is int field 9 (\<open>hi[9]\<close> in write_sac_ascii) and
  \<open>kevnm\<close>, \<open>kevnm2\<close> are string fields 1 and 2 (\<open>hs[1]\<close>, \<open>hs[2]\<close> in
  dict_to_header_arrays). The null float is an argument, so that the instance exists for every
  representation of single-precision values; in \<open>sac_header\<close> a value is its IEEE-754 bit
  pattern. The enumerated fields listed are the file type and the reference-time type, with the
  codes SAC gives them. The general theorems are stated for every table \<open>HD\<close>; the instance
  is where they are evaluated.
\<close>

definition sac_tables :: "'f \<Rightarrow> 'f header_tables" where
  "sac_tables fnull = \<lparr>
     FLOATHDRS =
       [''delta'', ''depmin'', ''depmax'', ''scale'', ''odelta'', ''b'', ''e'', ''o'', ''a'',
        ''internal0'', ''t0'', ''t1'', ''t2'', ''t3'', ''t4'', ''t5'', ''t6'', ''t7'', ''t8'',
        ''t9'', ''f'', ''resp0'', ''resp1'', ''resp2'', ''resp3'', ''resp4'', ''resp5'',
        ''resp6'', ''resp7'', ''resp8'', ''resp9'', ''stla'', ''stlo'', ''stel'', ''stdp'',
        ''evla'', ''evlo'', ''evel'', ''evdp'', ''mag'', ''user0'', ''user1'', ''user2'',
        ''user3'', ''user4'', ''user5'', ''user6'', ''user7'', ''user8'', ''user9'', ''dist'',
        ''az'', ''baz'', ''gcarc'', ''internal1'', ''internal2'', ''depmen'', ''cmpaz'',
        ''cmpinc'', ''xminimum'', ''xmaximum'', ''yminimum'', ''ymaximum'', ''unused6'',
        ''unused7'', ''unused8'', ''unused9'', ''unused10'', ''unused11'', ''unused12''],
     INTHDRS =
       [''nzyear'', ''nzjday'', ''nzhour'', ''nzmin'', ''nzsec'', ''nzmsec'', ''nvhdr'',
        ''norid'', ''nevid'', ''npts'', ''internal3'', ''nwfid'', ''nxsize'', ''nysize'',
        ''unused13'', ''iftype'', ''idep'', ''iztype'', ''unused14'', ''iinst'', ''istreg'',
        ''ievreg'', ''ievtyp'', ''iqual'', ''isynth'', ''imagtyp'', ''imagsrc'', ''unused15'',
        ''unused16'', ''unused17'', ''unused18'', ''unused19'', ''unused20'', ''unused21'',
        ''unused22'', ''leven'', ''lpspol'', ''lovrok'', ''lcalda'', ''unused23''],
     STRHDRS =
       [''kstnm'', ''kevnm'', ''kevnm2'', ''khole'', ''ko'', ''ka'', ''kt0'', ''kt1'', ''kt2'',
        ''kt3'', ''kt4'', ''kt5'', ''kt6'', ''kt7'', ''kt8'', ''kt9'', ''kf'', ''kuser0'',
        ''kuser1'', ''kuser2'', ''kcmpnm'', ''knetwk'', ''kdatrd'', ''kinst''],
     FNULL = fnull,
     INULL = - 12345,
     SNULL = ''-12345  '',
     ACCEPTED_VALS =
       [(''iftype'', [1, 2, 3, 4]),
        (''iztype'', [5, 9, 10, 11, 12, 13, 14, 15, 16, 17, 18, 19, 20, 21, 22])]
   \<rparr>"

definition sac_header :: "(32 word) header_tables" where
  "sac_header = sac_tables 0xC640E400"

text \<open>
  The int header array as the specification describes it: the null value everywhere, except
  0 at every field whose name starts with \<open>l\<close> (the logical fields) and 1 at \<open>lcalda\<close>.
\<close>

definition null_int_header :: "'f header_tables \<Rightarrow> int list" where
  "null_int_header HD =
     map (\<lambda>i. if index_of (INTHDRS HD) ''lcalda'' = Some i then 1
              else if i < length (INTHDRS HD) \<and> startswith (INTHDRS HD ! i) ''l'' then 0
              else INULL HD) [0..<40]"

definition null_array :: "'f header_tables \<Rightarrow> endian \<Rightarrow> string \<Rightarrow> 'f harray" where
  "null_array HD bo itype =
     (if itype = ''float'' then HF \<lparr>dtype_order = bo, elems = replicate 70 (FNULL HD)\<rparr>
      else if itype = ''int'' then HI \<lparr>dtype_order = bo, elems = null_int_header HD\<rparr>
      else HS (replicate 24 (SNULL HD)))"

subsection \<open>Byte strings and streams\<close>

text \<open>
  A \<open>bytes\<close> object is a \<open>string\<close>: a HOL character is one byte. A binary stream is
  its content, its read position, whether it was closed, and its kind: \<open>buffered\<close> for
  the io.BufferedReader that \<open>open(source, 'rb')\<close> returns, not \<open>buffered\<close> for an
  in-memory BytesIO. Both are seekable, and \<open>read(n)\<close> returns at most \<open>n\<close> bytes from
  the position, and all the rest for \<open>n = -1\<close>. For a read length below \<open>-1\<close> the
  BufferedReader raises ValueError, before it looks whether it is closed, and the BytesIO
  returns all the rest. An operation on a closed stream raises ValueError; the message of
  that error differs between the kinds of stream, and \<open>closed_error\<close> stands for it.
\<close>

type_synonym bytes = string

record stream =
  content :: bytes
  pos :: nat
  closed :: bool
  buffered :: bool

text \<open>
  An action on a state \<open>'s\<close> returns a value or raises, and leaves a state behind either
  way; \<open>'a io\<close> is an action on a stream that is read.
\<close>

type_synonym ('a, 's) action = "'s \<Rightarrow> (error + 'a) \<times> 's"

type_synonym 'a io = "('a, stream) action"

definition io_return :: "'a \<Rightarrow> ('a, 's) action" where
  "io_return x = (\<lambda>f. (Inr x, f))"

definition io_raise :: "error \<Rightarrow> ('a, 's) action" where
  "io_raise e = (\<lambda>f. (Inl e, f))"

definition io_lift :: "error + 'a \<Rightarrow> ('a, 's) action" where
  "io_lift r = (\<lambda>f. (r, f))"

definition io_catch :: "('a, 's) action \<Rightarrow> (error \<Rightarrow> ('a, 's) action) \<Rightarrow> ('a, 's) action" where
  "io_catch m handler = (\<lambda>f. case m f of (Inl e, f') \<Rightarrow> handler e f' | (Inr x, f') \<Rightarrow> (Inr x, f'))"

definition io_bind :: "('a, 's) action \<Rightarrow> ('a \<Rightarrow> ('b, 's) action) \<Rightarrow> ('b, 's) action" where
  "io_bind m k = (\<lambda>f. case m f of (Inl e, f') \<Rightarrow> (Inl e, f') | (Inr x, f') \<Rightarrow> k x f')"

definition closed_error :: error where
  "closed_error = ValueError ''I/O operation on closed file''"

definition f_read :: "int \<Rightarrow> bytes io" where
  "f_read n = (\<lambda>f.
     if buffered f \<and> n < - 1 then
       (Inl (ValueError ''read length must be non-negative or -1''), f)
     else if closed f then (Inl closed_error, f)
     else
       let rest = drop (pos f) (content f);
           got = (if n < 0 then rest else take (nat n) rest)
       in (Inr got, f\<lparr>pos := pos f + length got\<rparr>))"

definition f_tell :: "nat io" where
  "f_tell = (\<lambda>f. if closed f then (Inl closed_error, f) else (Inr (pos f), f))"

text \<open>\<open>f.seek(0, os.SEEK_END)\<close> and \<open>f.seek(p, os.SEEK_SET)\<close>, the two calls the module makes.\<close>

definition f_seek_end :: "unit io" where
  "f_seek_end = (\<lambda>f.
     if closed f then (Inl closed_error, f) else (Inr (), f\<lparr>pos := length (content f)\<rparr>))"

definition f_seek_set :: "nat \<Rightarrow> unit io" where
  "f_seek_set p = (\<lambda>f. if closed f then (Inl closed_error, f) else (Inr (), f\<lparr>pos := p\<rparr>))"

definition f_close :: "unit io" where
  "f_close = (\<lambda>f. (Inr (), f\<lparr>closed := True\<rparr>))"

subsection \<open>Arrays read from bytes\<close>

text \<open>
  Modelled from the spec: \<open>from_buffer\<close> of obspy/core/compatibility.py is missing from the
  sources; the specification has the bytes read interpreted as a sequence of fixed-size
  items. An empty buffer gives an empty array; otherwise numpy cuts the buffer into items
  of \<open>itemsize\<close> bytes, and a length that is not a multiple of the item size is a
  ValueError. An item of a numeric array read this way is kept as its stored bytes; its
  value is read under the array's byte order.
\<close>

fun items_of :: "nat \<Rightarrow> 'a list \<Rightarrow> nat \<Rightarrow> 'a list list" where
  "items_of itemsize b 0 = []"
| "items_of itemsize b (Suc k) = take itemsize b # items_of itemsize (drop itemsize b) k"

definition from_buffer :: "bytes \<Rightarrow> nat \<Rightarrow> error + bytes list" where
  "from_buffer b itemsize =
     (if b = [] then Inr []
      else if length b mod itemsize \<noteq> 0
      then Inl (ValueError ''buffer size must be a multiple of element size'')
      else Inr (items_of itemsize b (length b div itemsize)))"

definition i4_value :: "endian \<Rightarrow> bytes \<Rightarrow> int" where
  "i4_value bo item =
     (let u = foldl (\<lambda>a c. a * 256 + of_char c) (0::int) (if bo = Big then item else rev item)
      in if u < 2 ^ 31 then u else u - 2 ^ 32)"

definition swapped :: "endian \<Rightarrow> endian" where
  "swapped bo = (case bo of Little \<Rightarrow> Big | Big \<Rightarrow> Little)"

text \<open>\<open>a.newbyteorder('S')\<close>: the same bytes under the other byte order.\<close>

definition newbyteorder_S :: "'a ndarray \<Rightarrow> 'a ndarray" where
  "newbyteorder_S a = a\<lparr>dtype_order := swapped (dtype_order a)\<rparr>"

subsection \<open>is_valid_byteorder\<close>

definition is_valid_byteorder :: "'f header_tables \<Rightarrow> bytes ndarray \<Rightarrow> error + bool" where
  "is_valid_byteorder HD hi =
     (case index_of (INTHDRS HD) ''nvhdr'' of
        None \<Rightarrow> Inl (ValueError ''tuple.index(x): x not in tuple'')
      | Some k \<Rightarrow>
          if k < length (elems hi)
          then (let nvhdr = i4_value (dtype_order hi) (elems hi ! k) in Inr (0 < nvhdr \<and> nvhdr < 20))
          else Inl IndexError)"

subsection \<open>read_sac\<close>

text \<open>Lines 144 to 160: the three header arrays, and the resolution of the byte order.\<close>

definition read_header ::
  "'f header_tables \<Rightarrow> endian \<Rightarrow> bool \<Rightarrow> (bytes ndarray \<times> bytes ndarray \<times> string list) io" where
  "read_header HD bo is_byteorder_specified =
     io_bind (f_read (4 * 70)) (\<lambda>b1.
     io_bind (io_lift (from_buffer b1 4)) (\<lambda>hf_items.
     io_bind (f_read (4 * 40)) (\<lambda>b2.
     io_bind (io_lift (from_buffer b2 4)) (\<lambda>hi_items.
     io_bind (f_read (24 * 8)) (\<lambda>b3.
     io_bind (io_lift (from_buffer b3 8)) (\<lambda>hs_items.
       let hf = \<lparr>dtype_order = bo, elems = hf_items\<rparr>;
           hi = \<lparr>dtype_order = bo, elems = hi_items\<rparr>;
           hs = map S8 hs_items
       in
     io_bind (io_lift (is_valid_byteorder HD hi)) (\<lambda>valid.
       if \<not> valid then
         (if is_byteorder_specified then io_raise (SacIOError ''Incorrect byteorder'')
          else io_return (newbyteorder_S hf, newbyteorder_S hi, hs))
       else io_return (hf, hi, hs))))))))"

text \<open>Lines 163 to 167: the check of the header lengths.\<close>

definition check_header_lengths ::
  "bool \<Rightarrow> bytes ndarray \<Rightarrow> bytes ndarray \<Rightarrow> string list \<Rightarrow> unit io" where
  "check_header_lengths is_file_name hf hi hs =
     (if length (elems hf) \<noteq> 70 \<or> length (elems hi) \<noteq> 40 \<or> length hs \<noteq> 24 then
        io_bind (if \<not> is_file_name then f_close else io_return ()) (\<lambda>_.
        io_raise (SacIOError ''Cannot read all header values''))
      else io_return ())"

text \<open>Line 169: \<open>npts = hi[HD.INTHDRS.index('npts')]\<close>.\<close>

definition get_npts :: "'f header_tables \<Rightarrow> bytes ndarray \<Rightarrow> error + int" where
  "get_npts HD hi =
     (case index_of (INTHDRS HD) ''npts'' of
        None \<Rightarrow> Inl (ValueError ''tuple.index(x): x not in tuple'')
      | Some k \<Rightarrow>
          if k < length (elems hi) then Inr (i4_value (dtype_order hi) (elems hi ! k))
          else Inl IndexError)"

text \<open>Lines 172 to 182: the check of the file size, run when \<open>checksize\<close> is set.\<close>

definition check_file_size :: "int \<Rightarrow> unit io" where
  "check_file_size npts =
     io_bind f_tell (\<lambda>cur_pos.
     io_bind f_seek_end (\<lambda>_.
     io_bind f_tell (\<lambda>flen.
     io_bind (f_seek_set cur_pos) (\<lambda>_.
       let th_length = 632 + 4 * npts in
       if int flen \<noteq> th_length
       then io_raise (SacIOError ''Actual and theoretical file size are inconsistent.'')
       else io_return ()))))"

text \<open>Lines 187 to 195: the data array.\<close>

definition read_data :: "bool \<Rightarrow> endian \<Rightarrow> int \<Rightarrow> (bytes ndarray option) io" where
  "read_data headonly bo npts =
     (if headonly then io_return None
      else
        io_bind (f_read (npts * 4)) (\<lambda>b.
        io_bind (io_lift (from_buffer b 4)) (\<lambda>data_items.
          if int (length data_items) \<noteq> npts then
            io_bind f_close (\<lambda>_. io_raise (SacIOError ''Cannot read all data points''))
          else io_return (Some \<lparr>dtype_order = bo, elems = data_items\<rparr>))))"

text \<open>Lines 163 to 200: what read_sac does with the header arrays once they are read.\<close>

definition after_header ::
  "'f header_tables \<Rightarrow> bool \<Rightarrow> bool \<Rightarrow> bool \<Rightarrow>
   bytes ndarray \<times> bytes ndarray \<times> string list \<Rightarrow>
   (bytes ndarray \<times> bytes ndarray \<times> string list \<times> bytes ndarray option) io" where
  "after_header HD is_file_name headonly checksize = (\<lambda>(hf, hi, hs).
     io_bind (check_header_lengths is_file_name hf hi hs) (\<lambda>_.
     io_bind (io_lift (get_npts HD hi)) (\<lambda>npts.
     io_bind (if checksize then check_file_size npts else io_return ()) (\<lambda>_.
     io_bind (read_data headonly (dtype_order hi) npts) (\<lambda>data.
     io_bind (if is_file_name then f_close else io_return ()) (\<lambda>_.
     io_return (hf, hi, hs, data)))))))"

text \<open>
  Lines 127 to 200: read_sac once \<open>f\<close> is the stream, opened from a path
  (\<open>is_file_name\<close>) or given by the caller. \<open>byteorder\<close> is the caller's argument,
  \<open>None\<close> when omitted, and \<open>native\<close> is \<open>sys.byteorder\<close>.
\<close>

definition read_sac_stream ::
  "'f header_tables \<Rightarrow> endian \<Rightarrow> bool \<Rightarrow> bool \<Rightarrow> string option \<Rightarrow> bool \<Rightarrow>
   (bytes ndarray \<times> bytes ndarray \<times> string list \<times> bytes ndarray option) io" where
  "read_sac_stream HD native is_file_name headonly byteorder checksize =
     (let is_byteorder_specified = (byteorder \<noteq> None);
          byteorder' = (case byteorder of
                          None \<Rightarrow> (case native of Little \<Rightarrow> ''little'' | Big \<Rightarrow> ''big'')
                        | Some b \<Rightarrow> b)
      in
      if byteorder' \<noteq> ''little'' \<and> byteorder' \<noteq> ''big''
      then io_raise (ValueError ''Unrecognized byteorder. Use {little, big}'')
      else
        io_bind (read_header HD (if byteorder' = ''little'' then Little else Big)
                   is_byteorder_specified)
          (after_header HD is_file_name headonly checksize))"

text \<open>
  Lines 119 to 125: \<open>source\<close> is a path, opened \<open>'rb'\<close> in the file system \<open>fs\<close>
  (a missing file is the OSError of \<open>open\<close>), or an open stream. The result is the value
  returned or the exception raised, and the stream as the call leaves it (none when the
  file could not be opened).
\<close>

datatype source = Path string | FileObj stream

definition read_sac ::
  "'f header_tables \<Rightarrow> endian \<Rightarrow> (string \<Rightarrow> bytes option) \<Rightarrow> source \<Rightarrow> bool \<Rightarrow> string option \<Rightarrow> bool \<Rightarrow>
   (error + bytes ndarray \<times> bytes ndarray \<times> string list \<times> bytes ndarray option) \<times> stream option" where
  "read_sac HD native fs src headonly byteorder checksize =
     (case src of
        Path p \<Rightarrow>
          (case fs p of
             None \<Rightarrow> (Inl OSError, None)
           | Some b \<Rightarrow>
               (case read_sac_stream HD native True headonly byteorder checksize
                       \<lparr>content = b, pos = 0, closed = False, buffered = True\<rparr> of
                  (r, f) \<Rightarrow> (r, Some f)))
      | FileObj f0 \<Rightarrow>
          (case read_sac_stream HD native False headonly byteorder checksize f0 of
             (r, f) \<Rightarrow> (r, Some f)))"

text \<open>
  The header of a stream, for stating what read_sac returns: the items of the 280, 160 and
  192 bytes that follow the read position, and the byte order a call assumes before it has
  looked at the header.
\<close>

definition hf_items :: "stream \<Rightarrow> bytes list" where
  "hf_items f = items_of 4 (take 280 (drop (pos f) (content f))) 70"

definition hi_items :: "stream \<Rightarrow> bytes list" where
  "hi_items f = items_of 4 (take 160 (drop (pos f + 280) (content f))) 40"

definition hs_items :: "stream \<Rightarrow> bytes list" where
  "hs_items f = items_of 8 (take 192 (drop (pos f + 440) (content f))) 24"

definition assumed_order :: "endian \<Rightarrow> string option \<Rightarrow> endian" where
  "assumed_order native byteorder =
     (case byteorder of None \<Rightarrow> native | Some b \<Rightarrow> if b = ''little'' then Little else Big)"

definition size_error :: error where
  "size_error = SacIOError ''Actual and theoretical file size are inconsistent.''"

text \<open>An action never raises \<open>e\<close>, whatever the state.\<close>

definition never_raises :: "error \<Rightarrow> ('a, 's) action \<Rightarrow> bool" where
  "never_raises e m = (\<forall>f. fst (m f) \<noteq> Inl e)"

text \<open>Every value an action returns satisfies \<open>P\<close>.\<close>

definition returns_only :: "('a \<Rightarrow> bool) \<Rightarrow> ('a, 's) action \<Rightarrow> bool" where
  "returns_only P m = (\<forall>f x f'. m f = (Inr x, f') \<longrightarrow> P x)"

subsection \<open>Example files\<close>

text \<open>
  A little-endian SAC file with \<open>nvhdr = 6\<close> and \<open>npts = 2\<close>: 70 floats, 40 ints (fields 6
  and 9 set), 24 strings and two data values, 640 bytes. The other examples cut it short:
  after the first string field (448 bytes) and after the first data value (636 bytes).
\<close>

definition le_int_header :: bytes where
  "le_int_header =
     replicate 24 (CHR 0x00) @ [CHR 0x06, CHR 0x00, CHR 0x00, CHR 0x00] @ replicate 8 (CHR 0x00) @
     [CHR 0x02, CHR 0x00, CHR 0x00, CHR 0x00] @ replicate 120 (CHR 0x00)"

definition le_file :: bytes where
  "le_file = replicate 280 (CHR 0x00) @ le_int_header @ replicate 192 (CHR ''-'') @
             replicate 8 (CHR 0x00)"

definition open_at_0 :: "bytes \<Rightarrow> stream" where
  "open_at_0 b = \<lparr>content = b, pos = 0, closed = False, buffered = False\<rparr>"

definition short_header_file :: bytes where
  "short_header_file = take 448 le_file"

definition short_data_file :: bytes where
  "short_data_file = take 636 le_file"

definition one_file :: "string \<Rightarrow> bytes \<Rightarrow> string \<Rightarrow> bytes option" where
  "one_file name b = (\<lambda>p. if p = name then Some b else None)"

text \<open>
  A SAC ASCII file: 14 lines of five floats, 8 lines of five ints (\<open>npts = 2\<close>, the last
  token of the second), 8 lines of three string fields and one line of data.
\<close>

definition ascii_lines :: "string list" where
  "ascii_lines =
     replicate 14 ''0 0 0 0 0'' @ [''0 0 0 0 0'', ''0 0 0 0 2''] @ replicate 6 ''0 0 0 0 0'' @
     replicate 8 ''-12345  -12345  -12345  '' @ [''1 2'']"

definition ascii_file :: bytes where
  "ascii_file = concat (map (\<lambda>l. l @ [CHR 0x0A]) ascii_lines)"

subsection \<open>Header values and what numpy makes of them\<close>

text \<open>
  A value of the header dictionary is a single-precision float, an integer or a text string.
  A character of a text string is ASCII when its code is below 128; every other character
  stands for one that ASCII cannot encode.

  Assigning a value to an element of a header array stores a float in a float array, an
  integer of 32 bits in an int array and an ASCII string, cut to its first eight bytes, in
  a string array. What numpy does with a value of another type (a cast, a parse, an
  exception) or with an integer that 32 bits do not hold (an OverflowError or a wrapped
  value, by its version), how \<open>bytes.decode\<close> reads bytes that are not ASCII, and what
  Python does when it adds or subscripts values that are not strings, is outside the
  module: the record \<open>np\<close> holds these as parameters.
\<close>

datatype 'f hval = HFloat 'f | HInt int | HStr string

record 'f numpy =
  f4_of :: "'f hval \<Rightarrow> error + 'f"
  i4_of :: "'f hval \<Rightarrow> error + int"
  S8_of :: "'f hval \<Rightarrow> error + string"
  utf8_decode :: "string \<Rightarrow> error + string"
  add_other :: "'f hval \<Rightarrow> 'f hval \<Rightarrow> error + 'f hval"
  subscript_other :: "'f hval \<Rightarrow> error"

definition is_ascii :: "string \<Rightarrow> bool" where
  "is_ascii s = list_all (\<lambda>c. (of_char c :: nat) < 128) s"

definition store_f4 :: "'f numpy \<Rightarrow> 'f hval \<Rightarrow> error + 'f" where
  "store_f4 np v = (case v of HFloat x \<Rightarrow> Inr x | _ \<Rightarrow> f4_of np v)"

definition store_i4 :: "'f numpy \<Rightarrow> 'f hval \<Rightarrow> error + int" where
  "store_i4 np v =
     (case v of
        HInt n \<Rightarrow> if - (2 ^ 31) \<le> n \<and> n < 2 ^ 31 then Inr n else i4_of np v
      | _ \<Rightarrow> i4_of np v)"

definition store_S8 :: "'f numpy \<Rightarrow> 'f hval \<Rightarrow> error + string" where
  "store_S8 np v =
     (case v of
        HStr s \<Rightarrow> if is_ascii s then Inr (S8 s) else Inl UnicodeError
      | _ \<Rightarrow> S8_of np v)"

text \<open>\<open>val.decode()\<close> of an element of the string array.\<close>

definition decode :: "'f numpy \<Rightarrow> string \<Rightarrow> error + string" where
  "decode np b = (if is_ascii b then Inr b else utf8_decode np b)"

text \<open>\<open>'{:<8s}'.format(s)\<close>: left-justified in eight columns, padded with spaces.\<close>

definition ljust8 :: "string \<Rightarrow> string" where
  "ljust8 s = s @ replicate (8 - length s) (CHR '' '')"

text \<open>\<open>a += b\<close> on two values of the dictionary.\<close>

definition py_add :: "'f numpy \<Rightarrow> 'f hval \<Rightarrow> 'f hval \<Rightarrow> error + 'f hval" where
  "py_add np a b =
     (case (a, b) of (HStr s, HStr t) \<Rightarrow> Inr (HStr (s @ t)) | _ \<Rightarrow> add_other np a b)"

subsection \<open>header_arrays_to_dict\<close>

text \<open>\<open>dict(items)\<close>: the last pair of a key is the one kept.\<close>

definition dict_of :: "('k \<times> 'v) list \<Rightarrow> ('k \<rightharpoonup> 'v)" where
  "dict_of kvs = map_of (rev kvs)"

text \<open>The comprehension over the string array: each value kept is decoded, in order.\<close>

fun str_items :: "'f numpy \<Rightarrow> (string \<times> string) list \<Rightarrow> error + (string \<times> 'f hval) list" where
  "str_items np [] = Inr []"
| "str_items np ((key, val) # kvs) =
     (case decode np val of
        Inl e \<Rightarrow> Inl e
      | Inr s \<Rightarrow>
         (case str_items np kvs of
            Inl e \<Rightarrow> Inl e
          | Inr rest \<Rightarrow> Inr ((key, HStr s) # rest)))"

text \<open>Lines 469 to 474: the second name field is appended to the first and removed.\<close>

definition merge_kevnm :: "'f numpy \<Rightarrow> (string \<rightharpoonup> 'f hval) \<Rightarrow> error + (string \<rightharpoonup> 'f hval)" where
  "merge_kevnm np header =
     (case header ''kevnm2'' of
        None \<Rightarrow> Inr header
      | Some v2 \<Rightarrow>
         (case header ''kevnm'' of
            Some v1 \<Rightarrow>
              (case py_add np v1 v2 of
                 Inl e \<Rightarrow> Inl e
               | Inr v \<Rightarrow> Inr ((header(''kevnm2'' := None))(''kevnm'' \<mapsto> v)))
          | None \<Rightarrow> Inr ((header(''kevnm2'' := None))(''kevnm'' \<mapsto> v2))))"

definition header_arrays_to_dict ::
  "'f header_tables \<Rightarrow> 'f numpy \<Rightarrow> 'f ndarray \<Rightarrow> int ndarray \<Rightarrow> string list \<Rightarrow> bool \<Rightarrow>
   error + (string \<rightharpoonup> 'f hval)" where
  "header_arrays_to_dict HD np hf hi hs nulls =
     (let float_items = map (\<lambda>(key, val). (key, HFloat val))
                          (filter (\<lambda>(key, val). nulls \<or> val \<noteq> FNULL HD) (zip (FLOATHDRS HD) (elems hf)));
          int_items = map (\<lambda>(key, val). (key, HInt val))
                        (filter (\<lambda>(key, val). nulls \<or> val \<noteq> INULL HD) (zip (INTHDRS HD) (elems hi)))
      in case str_items np (filter (\<lambda>(key, val). nulls \<or> val \<noteq> SNULL HD) (zip (STRHDRS HD) hs)) of
           Inl e \<Rightarrow> Inl e
         | Inr string_items \<Rightarrow> merge_kevnm np (dict_of (float_items @ int_items @ string_items)))"

subsection \<open>dict_to_header_arrays\<close>

text \<open>Lines 493 to 515: the loop over the items of the dictionary, in their order.\<close>

fun set_headers ::
  "'f header_tables \<Rightarrow> 'f numpy \<Rightarrow> (string \<times> 'f hval) list \<Rightarrow>
   'f ndarray \<times> int ndarray \<times> string list \<Rightarrow> error + 'f ndarray \<times> int ndarray \<times> string list" where
  "set_headers HD np [] arrs = Inr arrs"
| "set_headers HD np ((hdr, v) # rest) (hf, hi, hs) =
     (if hdr \<in> set (FLOATHDRS HD) then
        (case index_of (FLOATHDRS HD) hdr of
           None \<Rightarrow> Inl (ValueError ''tuple.index(x): x not in tuple'')
         | Some k \<Rightarrow>
            if k < length (elems hf) then
              (case store_f4 np v of
                 Inl e \<Rightarrow> Inl e
               | Inr x \<Rightarrow> set_headers HD np rest (hf\<lparr>elems := (elems hf)[k := x]\<rparr>, hi, hs))
            else Inl IndexError)
      else if hdr \<in> set (INTHDRS HD) then
        (case index_of (INTHDRS HD) hdr of
           None \<Rightarrow> Inl (ValueError ''tuple.index(x): x not in tuple'')
         | Some k \<Rightarrow>
            if k < length (elems hi) then
              (case store_i4 np v of
                 Inl e \<Rightarrow> Inl e
               | Inr n \<Rightarrow> set_headers HD np rest (hf, hi\<lparr>elems := (elems hi)[k := n]\<rparr>, hs))
            else Inl IndexError)
      else if hdr \<in> set (STRHDRS HD) then
        (if hdr = ''kevnm'' then
           (case v of
              HStr s \<Rightarrow>
                (let kevnm = ljust8 (take 8 s);
                     kevnm2 = ljust8 (take 8 (drop 8 s))
                 in if \<not> is_ascii kevnm \<or> \<not> is_ascii kevnm2 then Inl UnicodeError
                    else if length hs \<le> 2 then Inl IndexError
                    else set_headers HD np rest (hf, hi, hs[1 := S8 kevnm, 2 := S8 kevnm2]))
            | _ \<Rightarrow> Inl (subscript_other np v))
         else
           (case index_of (STRHDRS HD) hdr of
              None \<Rightarrow> Inl (ValueError ''tuple.index(x): x not in tuple'')
            | Some k \<Rightarrow>
               if k < length hs then
                 (case store_S8 np v of
                    Inl e \<Rightarrow> Inl e
                  | Inr b \<Rightarrow> set_headers HD np rest (hf, hi, hs[k := b]))
               else Inl IndexError))
      else Inl (ValueError ''Unrecognized header name''))"

definition dict_to_header_arrays ::
  "'f header_tables \<Rightarrow> 'f numpy \<Rightarrow> endian \<Rightarrow> (string \<times> 'f hval) list option \<Rightarrow> string \<Rightarrow>
   error + 'f ndarray \<times> int ndarray \<times> string list" where
  "dict_to_header_arrays HD np native header byteorder =
     (case init_header_arrays HD native [''float'', ''int'', ''str''] byteorder of
        Inl e \<Rightarrow> Inl e
      | Inr [HF hf, HI hi, HS hs] \<Rightarrow>
         (case header of
            None \<Rightarrow> Inr (hf, hi, hs)
          | Some kvs \<Rightarrow> set_headers HD np kvs (hf, hi, hs))
      | Inr _ \<Rightarrow> Inl (ValueError ''not enough values to unpack''))"

text \<open>
  An instance of the numpy parameters that rejects every value of another type and every
  integer out of range, for evaluating the converters on values of the right type.
\<close>

definition strict_numpy :: "(32 word) numpy" where
  "strict_numpy = \<lparr>
     f4_of = (\<lambda>v. Inl TypeError),
     i4_of = (\<lambda>v. case v of HInt n \<Rightarrow> Inl OverflowError | _ \<Rightarrow> Inl TypeError),
     S8_of = (\<lambda>v. Inl TypeError),
     utf8_decode = (\<lambda>b. Inl UnicodeError),
     add_other = (\<lambda>a b. Inl TypeError),
     subscript_other = (\<lambda>v. TypeError)
   \<rparr>"

subsection \<open>validate_sac_content\<close>

text \<open>
  What the validation needs from numpy and from UTCDateTime, as parameters: the comparison
  \<open>x >= 0.0\<close>, the equality of two floats, the minimum, maximum and mean of a non-empty
  array, and whether UTCDateTime accepts a year, day of the year, hour, minute, second and
  microsecond (it raises ValueError when it does not).
\<close>

record 'f float_ops =
  ge_zero :: "'f \<Rightarrow> bool"
  f4_eq :: "'f \<Rightarrow> 'f \<Rightarrow> bool"
  a_min :: "'f list \<Rightarrow> 'f"
  a_max :: "'f list \<Rightarrow> 'f"
  a_mean :: "'f list \<Rightarrow> 'f"
  utc_ok :: "int \<Rightarrow> int \<Rightarrow> int \<Rightarrow> int \<Rightarrow> int \<Rightarrow> int \<Rightarrow> bool"

text \<open>\<open>arr[names.index(name)]\<close>: ValueError for an unknown name, IndexError past the end.\<close>

definition hdr_item :: "string list \<Rightarrow> 'a list \<Rightarrow> string \<Rightarrow> error + 'a" where
  "hdr_item names arr name =
     (case index_of names name of
        None \<Rightarrow> Inl (ValueError ''tuple.index(x): x not in tuple'')
      | Some k \<Rightarrow> if k < length arr then Inr (arr ! k) else Inl IndexError)"

text \<open>
  Modelled from the spec: \<open>is_valid_enum_int\<close> of obspy/io/sac/util.py is missing from the
  sources. The specification has it test whether a value is valid for an enumerated field,
  optionally allowing the null value: the value is one of the codes the field accepts, or
  null when null is allowed; a field that is not enumerated has no valid value.
\<close>

definition is_valid_enum_int :: "'f header_tables \<Rightarrow> string \<Rightarrow> int \<Rightarrow> bool \<Rightarrow> bool" where
  "is_valid_enum_int HD hdr v allow_null =
     (case map_of (ACCEPTED_VALS HD) hdr of
        None \<Rightarrow> False
      | Some accep \<Rightarrow> v \<in> set accep \<or> (allow_null \<and> v = INULL HD))"

definition sequence :: "error + unit \<Rightarrow> error + unit \<Rightarrow> error + unit" where
  "sequence a b = (case a of Inl e \<Rightarrow> Inl e | Inr _ \<Rightarrow> b)"

definition test_delta :: "'f header_tables \<Rightarrow> 'f float_ops \<Rightarrow> 'f list \<Rightarrow> error + unit" where
  "test_delta HD ops hf =
     (case hdr_item (FLOATHDRS HD) hf ''delta'' of
        Inl e \<Rightarrow> Inl e
      | Inr dval \<Rightarrow>
          if \<not> ge_zero ops dval then Inl (SacInvalidContentError ''Header delta must be >= 0.'')
          else Inr ())"

fun test_logicals :: "'f header_tables \<Rightarrow> int list \<Rightarrow> string list \<Rightarrow> error + unit" where
  "test_logicals HD hi [] = Inr ()"
| "test_logicals HD hi (hdr # hdrs) =
     (case hdr_item (INTHDRS HD) hi hdr of
        Inl e \<Rightarrow> Inl e
      | Inr lval \<Rightarrow>
          if lval \<notin> {0, 1, INULL HD} then Inl (SacInvalidContentError ''Header must be {0, 1, null}.'')
          else test_logicals HD hi hdrs)"

text \<open>\<open>data.min()\<close> and its like: AttributeError on None, ValueError on an empty array.\<close>

definition reduce :: "('f list \<Rightarrow> 'f) \<Rightarrow> 'f list option \<Rightarrow> error + 'f" where
  "reduce f data =
     (case data of
        None \<Rightarrow> Inl AttributeError
      | Some d \<Rightarrow>
          if d = [] then Inl (ValueError ''zero-size array to reduction operation'')
          else Inr (f d))"

text \<open>Lines 578 to 583, the body of the \<open>try\<close>: a header field compared with a reduction.\<close>

definition is_equal ::
  "'f header_tables \<Rightarrow> 'f float_ops \<Rightarrow> 'f list \<Rightarrow> string \<Rightarrow> ('f list \<Rightarrow> 'f) \<Rightarrow> 'f list option \<Rightarrow>
   error + bool" where
  "is_equal HD ops hf name f data =
     (case hdr_item (FLOATHDRS HD) hf name of
        Inl e \<Rightarrow> Inl e
      | Inr x \<Rightarrow> (case reduce f data of Inl e \<Rightarrow> Inl e | Inr y \<Rightarrow> Inr (f4_eq ops x y)))"

definition data_hdrs_body ::
  "'f header_tables \<Rightarrow> 'f float_ops \<Rightarrow> 'f list \<Rightarrow> 'f list option \<Rightarrow> error + unit" where
  "data_hdrs_body HD ops hf data =
     (case is_equal HD ops hf ''depmin'' (a_min ops) data of
        Inl e \<Rightarrow> Inl e
      | Inr isMIN \<Rightarrow>
     (case is_equal HD ops hf ''depmax'' (a_max ops) data of
        Inl e \<Rightarrow> Inl e
      | Inr isMAX \<Rightarrow>
     (case is_equal HD ops hf ''depmen'' (a_mean ops) data of
        Inl e \<Rightarrow> Inl e
      | Inr isMEN \<Rightarrow>
          if \<not> (isMIN \<and> isMAX \<and> isMEN)
          then Inl (SacInvalidContentError ''Data headers do not match data array.'')
          else Inr ())))"

text \<open>
  The \<open>try\<close> with its handler: AttributeError and ValueError become the ValueError of the
  handler; SacInvalidContentError is neither and passes through, like every other exception.
\<close>

definition test_data_hdrs ::
  "'f header_tables \<Rightarrow> 'f float_ops \<Rightarrow> 'f list \<Rightarrow> 'f list option \<Rightarrow> error + unit" where
  "test_data_hdrs HD ops hf data =
     (case data_hdrs_body HD ops hf data of
        Inl AttributeError \<Rightarrow> Inl (ValueError ''Data array is None, empty array, or non-array.'')
      | Inl (ValueError _) \<Rightarrow> Inl (ValueError ''Data array is None, empty array, or non-array.'')
      | r \<Rightarrow> r)"

fun test_enums :: "'f header_tables \<Rightarrow> int list \<Rightarrow> string list \<Rightarrow> error + unit" where
  "test_enums HD hi [] = Inr ()"
| "test_enums HD hi (hdr # hdrs) =
     (case hdr_item (INTHDRS HD) hi hdr of
        Inl e \<Rightarrow> Inl e
      | Inr enval \<Rightarrow>
          if \<not> is_valid_enum_int HD hdr enval True
          then Inl (SacInvalidContentError ''Invalid enumerated value'')
          else test_enums HD hi hdrs)"

text \<open>Lines 597 to 615: the six reference-time fields, read in this order, then checked.\<close>

definition int_item :: "'f header_tables \<Rightarrow> int list \<Rightarrow> string \<Rightarrow> (int \<Rightarrow> error + unit) \<Rightarrow> error + unit" where
  "int_item HD hi name k = (case hdr_item (INTHDRS HD) hi name of Inl e \<Rightarrow> Inl e | Inr x \<Rightarrow> k x)"

definition test_reftime :: "'f header_tables \<Rightarrow> 'f float_ops \<Rightarrow> int list \<Rightarrow> error + unit" where
  "test_reftime HD ops hi =
     int_item HD hi ''nzyear'' (\<lambda>nzyear.
     int_item HD hi ''nzjday'' (\<lambda>nzjday.
     int_item HD hi ''nzhour'' (\<lambda>nzhour.
     int_item HD hi ''nzmin'' (\<lambda>nzmin.
     int_item HD hi ''nzsec'' (\<lambda>nzsec.
     int_item HD hi ''nzmsec'' (\<lambda>nzmsec.
       if \<not> list_all (\<lambda>v. v \<noteq> INULL HD) [nzyear, nzjday, nzhour, nzmin, nzsec, nzmsec]
       then Inl (SacInvalidContentError ''Null reference time values detected.'')
       else if \<not> utc_ok ops nzyear nzjday nzhour nzmin nzsec nzmsec
       then Inl (SacInvalidContentError ''Invalid reference time'')
       else Inr ()))))))"

text \<open>
  Lines 617 to 636. The branches for the codes 12 and 13 to 22 test \<open>val\<close>, a name the
  function never binds (in Python 3 the variable of the comprehension of line 605 is local
  to it): reaching them raises NameError. The field looked up is read from \<open>hi\<close>, at the
  position its name has among the float fields, and compared with the null integer.
\<close>

definition test_reltime :: "'f header_tables \<Rightarrow> int list \<Rightarrow> error + unit" where
  "test_reltime HD hi =
     (case hdr_item (INTHDRS HD) hi ''iztype'' of
        Inl e \<Rightarrow> Inl e
      | Inr iztype_val \<Rightarrow>
          if is_valid_enum_int HD ''iztype'' iztype_val False then
            (let hdr = (if iztype_val = 9 then Inr ''b''
                        else if iztype_val = 11 then Inr ''o''
                        else Inl (NameError ''val''))
             in case hdr of
                  Inl e \<Rightarrow> Inl e
                | Inr name \<Rightarrow>
                   (case hdr_item (FLOATHDRS HD) hi name of
                      Inl e \<Rightarrow> Inl e
                    | Inr x \<Rightarrow>
                        if x = INULL HD
                        then Inl (SacInvalidContentError ''Reference header for iztype not set.'')
                        else Inr ()))
          else Inl (SacInvalidContentError ''Invalid iztype''))"

definition ALL_TESTS :: "string list" where
  "ALL_TESTS = [''delta'', ''logicals'', ''data_hdrs'', ''enums'', ''reftime'', ''reltime'']"

definition validate_sac_content ::
  "'f header_tables \<Rightarrow> 'f float_ops \<Rightarrow> 'f ndarray \<Rightarrow> int ndarray \<Rightarrow> string list \<Rightarrow>
   'f ndarray option \<Rightarrow> string list \<Rightarrow> error + unit" where
  "validate_sac_content HD ops hf hi hs data tests =
     (let tests = (if ''all'' \<in> set tests then ALL_TESTS else tests) in
      if tests = [] then Inl (ValueError ''No validation tests specified.'')
      else if list_ex (\<lambda>itest. itest \<notin> set ALL_TESTS) tests
      then Inl (ValueError ''Unrecognized validataion test specified'')
      else
        sequence (if ''delta'' \<in> set tests then test_delta HD ops (elems hf) else Inr ())
       (sequence (if ''logicals'' \<in> set tests
                  then test_logicals HD (elems hi) [''leven'', ''lpspol'', ''lovrok'', ''lcalda'']
                  else Inr ())
       (sequence (if ''data_hdrs'' \<in> set tests
                  then test_data_hdrs HD ops (elems hf) (map_option elems data) else Inr ())
       (sequence (if ''enums'' \<in> set tests
                  then test_enums HD (elems hi) (map fst (ACCEPTED_VALS HD)) else Inr ())
       (sequence (if ''reftime'' \<in> set tests then test_reftime HD ops (elems hi) else Inr ())
                 (if ''reltime'' \<in> set tests then test_reltime HD (elems hi) else Inr ()))))))"

text \<open>
  An instance of the float parameters in exact rational arithmetic, which is what single
  precision computes wherever it does not round; UTCDateTime is taken to accept a day of
  the year from 1 to 366 and a time of day.
\<close>

definition exact_ops :: "rat float_ops" where
  "exact_ops = \<lparr>
     ge_zero = (\<lambda>x. x \<ge> 0),
     f4_eq = (\<lambda>x y. x = y),
     a_min = (\<lambda>d. fold min (tl d) (hd d)),
     a_max = (\<lambda>d. fold max (tl d) (hd d)),
     a_mean = (\<lambda>d. sum_list d / of_nat (length d)),
     utc_ok = (\<lambda>y j h m s us. 1 \<le> j \<and> j \<le> 366 \<and> 0 \<le> h \<and> h < 24 \<and> 0 \<le> m \<and> m < 60 \<and>
                               0 \<le> s \<and> s < 60 \<and> 0 \<le> us \<and> us < 1000000)
   \<rparr>"

subsection \<open>Text: lines, tokens, numbers\<close>

text \<open>
  \<open>bytes.splitlines\<close> ends a line at \<open>\n\<close>, \<open>\r\<close> or \<open>\r\n\<close>; the module keeps the
  line ends and strips them again, which leaves the lines without them. \<open>bytes.split\<close>
  cuts a line at runs of ASCII whitespace.
\<close>

fun splitlines_from :: "string \<Rightarrow> string \<Rightarrow> string list" where
  "splitlines_from cur [] = (if cur = [] then [] else [cur])"
| "splitlines_from cur (c # cs) =
     (if c = CHR 0x0A then cur # splitlines_from [] cs
      else if c = CHR 0x0D then
        (case cs of
           [] \<Rightarrow> [cur]
         | c' # cs' \<Rightarrow> if c' = CHR 0x0A then cur # splitlines_from [] cs'
                      else cur # splitlines_from [] cs)
      else splitlines_from (cur @ [c]) cs)"

definition splitlines :: "string \<Rightarrow> string list" where
  "splitlines b = splitlines_from [] b"

definition is_space :: "char \<Rightarrow> bool" where
  "is_space c = (c \<in> {CHR '' '', CHR 0x09, CHR 0x0A, CHR 0x0B, CHR 0x0C, CHR 0x0D})"

fun split_from :: "string \<Rightarrow> string \<Rightarrow> string list" where
  "split_from cur [] = (if cur = [] then [] else [cur])"
| "split_from cur (c # cs) =
     (if is_space c then (if cur = [] then split_from [] cs else cur # split_from [] cs)
      else split_from (cur @ [c]) cs)"

definition split :: "string \<Rightarrow> string list" where
  "split b = split_from [] b"

text \<open>
  Reading and writing numbers as text is numpy's and C's business: how a token becomes a
  float or an int (or fails to), and how the formats \<open>%#15.7g\<close>, \<open>%10d\<close>, \<open>%-8s\<close> and
  numpy's default \<open>%.18e\<close> print a value, are parameters.
\<close>

record 'f parse_ops =
  parse_f4 :: "string \<Rightarrow> error + 'f"
  parse_i4 :: "string \<Rightarrow> error + int"

record 'f fmt_ops =
  fmt_g15 :: "'f \<Rightarrow> string"
  fmt_d10 :: "int \<Rightarrow> string"
  fmt_s8 :: "string \<Rightarrow> string"
  fmt_e18 :: "'f \<Rightarrow> string"

fun parse_all :: "(string \<Rightarrow> error + 'a) \<Rightarrow> string list \<Rightarrow> error + 'a list" where
  "parse_all parse [] = Inr []"
| "parse_all parse (t # ts) =
     (case parse t of
        Inl e \<Rightarrow> Inl e
      | Inr x \<Rightarrow> (case parse_all parse ts of Inl e \<Rightarrow> Inl e | Inr xs \<Rightarrow> Inr (x # xs)))"

text \<open>
  \<open>np.array(rows, dtype).ravel()\<close> for rows of tokens: rows of different lengths are a
  ValueError, and so is a token that does not parse.
\<close>

definition np_array_ravel :: "(string \<Rightarrow> error + 'a) \<Rightarrow> string list list \<Rightarrow> error + 'a list" where
  "np_array_ravel parse rows =
     (if \<not> list_all (\<lambda>r. length r = length (hd rows)) rows
      then Inl (ValueError ''setting an array element with a sequence.'')
      else parse_all parse (concat rows))"

subsection \<open>read_sac_ascii\<close>

text \<open>
  Lines 257 to 259: each of the eight lines of the string block gives three fields,
  \<open>np.fromstring(line, dtype='|S8', count=3)\<close>; a line shorter than 24 bytes is a ValueError.
\<close>

fun fill_strings :: "string list \<Rightarrow> nat list \<Rightarrow> string list \<Rightarrow> error + string list" where
  "fill_strings contents [] hs = Inr hs"
| "fill_strings contents (i # is) hs =
     (let line = contents ! (14 + 8 + i) in
      if length line < 24 then Inl (ValueError ''string is smaller than requested size'')
      else fill_strings contents is
             (take (3 * i) hs @ map S8 (items_of 8 line 3) @ drop (3 * i + 3) hs))"

text \<open>
  Lines 232 to 278: read_sac_ascii once \<open>fh\<close> is the stream. \<open>has_name\<close> tells whether
  the stream has a \<open>name\<close>, which the message of the first error reads (a file has one, a
  BytesIO has not).
\<close>

definition read_sac_ascii_stream ::
  "'f header_tables \<Rightarrow> 'f parse_ops \<Rightarrow> endian \<Rightarrow> bool \<Rightarrow> bool \<Rightarrow> bool \<Rightarrow>
   ('f ndarray \<times> int ndarray \<times> string list \<times> 'f ndarray option) io" where
  "read_sac_ascii_stream HD tx native is_file_name has_name headonly =
     io_bind (f_read (- 1)) (\<lambda>b.
       let contents = splitlines b in
       if length contents < 14 + 8 + 8 then
         io_raise (if has_name then SacIOError ''is not a valid SAC file'' else AttributeError)
       else
     io_bind (io_lift (np_array_ravel (parse_f4 tx) (map split (take 14 contents)))) (\<lambda>hf_elems.
     io_bind (io_lift (np_array_ravel (parse_i4 tx) (map split (take 8 (drop 14 contents))))) (\<lambda>hi_elems.
     io_bind (io_lift (init_header_arrays HD native [''str''] ''='')) (\<lambda>arrays.
       case arrays of
         [HS hs0] \<Rightarrow>
     io_bind (io_lift (fill_strings contents [0..<8] hs0)) (\<lambda>hs.
       let hf = \<lparr>dtype_order = Little, elems = hf_elems\<rparr>;
           hi = \<lparr>dtype_order = Little, elems = hi_elems\<rparr>
       in
       if headonly then
         io_bind (if is_file_name then f_close else io_return ()) (\<lambda>_.
         io_return (hf, hi, hs, None))
       else
     io_bind (io_lift (np_array_ravel (parse_f4 tx) (map split (drop 30 contents)))) (\<lambda>data_elems.
     io_bind (io_lift (hdr_item (INTHDRS HD) hi_elems ''npts'')) (\<lambda>npts.
       if int (length data_elems) \<noteq> npts then
         io_bind (if is_file_name then f_close else io_return ()) (\<lambda>_.
         io_raise (SacIOError ''Cannot read all data points''))
       else
         io_bind (if is_file_name then f_close else io_return ()) (\<lambda>_.
         io_return (hf, hi, hs, Some \<lparr>dtype_order = Little, elems = data_elems\<rparr>)))))
       | _ \<Rightarrow> io_raise (ValueError ''not enough values to unpack'')))))"

text \<open>
  Lines 223 to 230: the source is a path (a missing file is SacIOError) or an open stream.
\<close>

definition read_sac_ascii ::
  "'f header_tables \<Rightarrow> 'f parse_ops \<Rightarrow> endian \<Rightarrow> (string \<Rightarrow> bytes option) \<Rightarrow> bool \<Rightarrow> source \<Rightarrow> bool \<Rightarrow>
   (error + 'f ndarray \<times> int ndarray \<times> string list \<times> 'f ndarray option) \<times> stream option" where
  "read_sac_ascii HD tx native fs has_name src headonly =
     (case src of
        Path p \<Rightarrow>
          (case fs p of
             None \<Rightarrow> (Inl (SacIOError ''No such file''), None)
           | Some b \<Rightarrow>
               (case read_sac_ascii_stream HD tx native True True headonly
                       \<lparr>content = b, pos = 0, closed = False, buffered = True\<rparr> of
                  (r, f) \<Rightarrow> (r, Some f)))
      | FileObj f0 \<Rightarrow>
          (case read_sac_ascii_stream HD tx native False has_name headonly f0 of
             (r, f) \<Rightarrow> (r, Some f)))"

subsection \<open>write_sac_ascii\<close>

text \<open>
  The destination, as far as the writer is concerned, is the lines written to it, in
  order, and whether it was closed. \<open>np.savetxt\<close> writes one line per row of a
  two-dimensional array, the formatted values of the row joined by the delimiter; a
  one-dimensional array is written as a column, one value per line, whatever the
  delimiter. Writing to a closed file raises ValueError.
\<close>

record wstream =
  written :: "string list"
  wclosed :: bool

definition w_lines :: "string list \<Rightarrow> (unit, wstream) action" where
  "w_lines ls = (\<lambda>f.
     if ls = [] then (Inr (), f)
     else if wclosed f then (Inl closed_error, f)
     else (Inr (), f\<lparr>written := written f @ ls\<rparr>))"

definition w_close :: "(unit, wstream) action" where
  "w_close = (\<lambda>f. (Inr (), f\<lparr>wclosed := True\<rparr>))"

definition join :: "string \<Rightarrow> string list \<Rightarrow> string" where
  "join delimiter ss = (case ss of [] \<Rightarrow> [] | s # rest \<Rightarrow> s @ concat (map (\<lambda>t. delimiter @ t) rest))"

definition savetxt_2d :: "('a \<Rightarrow> string) \<Rightarrow> string \<Rightarrow> 'a list list \<Rightarrow> (unit, wstream) action" where
  "savetxt_2d fmt delimiter rows = w_lines (map (\<lambda>row. join delimiter (map fmt row)) rows)"

definition savetxt_1d :: "('a \<Rightarrow> string) \<Rightarrow> string \<Rightarrow> 'a list \<Rightarrow> (unit, wstream) action" where
  "savetxt_1d fmt delimiter xs = w_lines (map (\<lambda>x. join delimiter [fmt x]) xs)"

text \<open>
  \<open>np.reshape(a, (rows, cols))\<close> of a one-dimensional array; \<open>rows\<close> may be \<open>-1\<close>, which
  numpy replaces by the number of rows that fits, and no other negative number.
\<close>

definition reshape :: "'a list \<Rightarrow> int \<Rightarrow> nat \<Rightarrow> error + 'a list list" where
  "reshape a rows cols =
     (if rows = - 1 then
        (if cols \<noteq> 0 \<and> length a mod cols = 0 then Inr (items_of cols a (length a div cols))
         else Inl (ValueError ''cannot reshape array''))
      else if rows < 0 then Inl (ValueError ''negative dimensions not allowed'')
      else if length a = nat rows * cols then Inr (items_of cols a (nat rows))
      else Inl (ValueError ''cannot reshape array''))"

text \<open>Python's slices \<open>a[0:stop]\<close> and \<open>a[start:]\<close>, a negative index counting from the end.\<close>

definition slice_index :: "'a list \<Rightarrow> int \<Rightarrow> nat" where
  "slice_index a i = (if i < 0 then nat (int (length a) + i) else min (nat i) (length a))"

definition slice_to :: "'a list \<Rightarrow> int \<Rightarrow> 'a list" where
  "slice_to a stop = take (slice_index a stop) a"

definition slice_from :: "'a list \<Rightarrow> int \<Rightarrow> 'a list" where
  "slice_from a start = drop (slice_index a start) a"

text \<open>Lines 406 to 416: the three header blocks; any exception ends in the TypeError that
  \<open>raise(e, message)\<close> is in Python 3, once the file is closed if the writer opened it.\<close>

definition write_headers ::
  "'f fmt_ops \<Rightarrow> bool \<Rightarrow> 'f list \<Rightarrow> int list \<Rightarrow> string list \<Rightarrow> (unit, wstream) action" where
  "write_headers tx is_file_name hf hi hs =
     io_catch
       (io_bind (io_lift (reshape hf 14 5)) (\<lambda>hf_rows.
        io_bind (savetxt_2d (fmt_g15 tx) [] hf_rows) (\<lambda>_.
        io_bind (io_lift (reshape hi 8 5)) (\<lambda>hi_rows.
        io_bind (savetxt_2d (fmt_d10 tx) [] hi_rows) (\<lambda>_.
        io_bind (io_lift (reshape hs 8 3)) (\<lambda>hs_rows.
        savetxt_2d (fmt_s8 tx) [] hs_rows))))))
       (\<lambda>e. io_bind (if is_file_name then w_close else io_return ()) (\<lambda>_. io_raise TypeError))"

text \<open>Lines 424 to 431: the data section; any exception closes the file and is replaced
  by SacIOError.\<close>

definition write_data :: "'f fmt_ops \<Rightarrow> int \<Rightarrow> 'f list \<Rightarrow> (unit, wstream) action" where
  "write_data tx npts data =
     io_catch
       (let rows = npts div 5 in
        io_bind (io_lift (reshape (slice_to data (5 * rows)) rows 5)) (\<lambda>data_rows.
        io_bind (savetxt_2d (fmt_g15 tx) [] data_rows) (\<lambda>_.
        savetxt_1d (fmt_e18 tx) [CHR 0x09] (slice_from data (5 * rows)))))
       (\<lambda>e. io_bind w_close (\<lambda>_. io_raise (SacIOError ''Cannot write trace values'')))"

text \<open>Lines 406 to 434: write_sac_ascii once \<open>f\<close> is the destination, opened from a path
  (\<open>is_file_name\<close>) or given by the caller.\<close>

definition write_sac_ascii_stream ::
  "'f header_tables \<Rightarrow> 'f fmt_ops \<Rightarrow> bool \<Rightarrow> 'f ndarray \<Rightarrow> int ndarray \<Rightarrow> string list \<Rightarrow>
   'f ndarray option \<Rightarrow> (unit, wstream) action" where
  "write_sac_ascii_stream HD tx is_file_name hf hi hs data =
     io_bind (write_headers tx is_file_name (elems hf) (elems hi) hs) (\<lambda>_.
       case data of
         None \<Rightarrow> (if is_file_name then w_close else io_return ())
       | Some d \<Rightarrow>
           (let npts = elems hi ! 9 in
            if npts = INULL HD \<or> npts = 0 then (if is_file_name then w_close else io_return ())
            else
              io_bind (write_data tx npts (elems d)) (\<lambda>_.
              if is_file_name then w_close else io_return ())))"

text \<open>
  An instance of the parsing parameters for evaluating the reader: a token parses when it
  is a run of decimal digits, to the number it writes.
\<close>

definition digit_of :: "char \<Rightarrow> nat option" where
  "digit_of c = (let n = (of_char c :: nat) in if 48 \<le> n \<and> n < 58 then Some (n - 48) else None)"

fun digits_value :: "nat \<Rightarrow> string \<Rightarrow> nat option" where
  "digits_value acc [] = Some acc"
| "digits_value acc (c # cs) =
     (case digit_of c of None \<Rightarrow> None | Some d \<Rightarrow> digits_value (10 * acc + d) cs)"

definition parse_digits :: "string \<Rightarrow> error + nat" where
  "parse_digits t =
     (if t = [] then Inl (ValueError ''could not convert string'')
      else case digits_value 0 t of
             None \<Rightarrow> Inl (ValueError ''could not convert string'')
           | Some n \<Rightarrow> Inr n)"

definition digit_parse :: "rat parse_ops" where
  "digit_parse = \<lparr>
     parse_f4 = (\<lambda>t. map_sum id of_nat (parse_digits t)),
     parse_i4 = (\<lambda>t. map_sum id int (parse_digits t))
   \<rparr>"

text \<open>The thirty lines of the three header blocks, as write_sac_ascii formats them.\<close>

definition header_text :: "'f fmt_ops \<Rightarrow> 'f list \<Rightarrow> int list \<Rightarrow> string list \<Rightarrow> string list" where
  "header_text tx hf hi hs =
     map (\<lambda>row. join [] (map (fmt_g15 tx) row)) (items_of 5 hf 14) @
     map (\<lambda>row. join [] (map (fmt_d10 tx) row)) (items_of 5 hi 8) @
     map (\<lambda>row. join [] (map (fmt_s8 tx) row)) (items_of 3 hs 8)"

text \<open>The arrays read_sac_ascii returns for a given \<open>headonly\<close>, as to their byte order.\<close>

definition little_arrays :: "bool \<Rightarrow> 'f ndarray \<times> int ndarray \<times> string list \<times> 'f ndarray option \<Rightarrow> bool" where
  "little_arrays headonly r = (case r of (hf, hi, hs, data) \<Rightarrow>
     dtype_order hf = Little \<and> dtype_order hi = Little \<and>
     (case data of None \<Rightarrow> headonly | Some d \<Rightarrow> \<not> headonly \<and> dtype_order d = Little))"


subsection \<open>The round trip through the header arrays, and what it should return\<close>

definition roundtrip ::
  "'f header_tables \<Rightarrow> 'f numpy \<Rightarrow> endian \<Rightarrow> (string \<times> 'f hval) list \<Rightarrow> string \<Rightarrow>
   error + (string \<rightharpoonup> 'f hval)" where
  "roundtrip HD np native header byteorder =
     (case dict_to_header_arrays HD np native (Some header) byteorder of
        Inl e \<Rightarrow> Inl e
      | Inr (hf, hi, hs) \<Rightarrow> header_arrays_to_dict HD np hf hi hs False)"

text \<open>The value a returned dictionary has at a key, if it was returned.\<close>

definition dict_get :: "error + ('k \<rightharpoonup> 'v) \<Rightarrow> 'k \<Rightarrow> error + 'v option" where
  "dict_get r k = (case r of Inl e \<Rightarrow> Inl e | Inr m \<Rightarrow> Inr (m k))"

text \<open>
  Header tables of the SAC layout: 70, 40 and 24 names, no name twice, the two name
  fields at string positions 1 and 2, \<open>lcalda\<close> among the int fields, and a null string
  that a string field holds as it is.
\<close>

definition header_names :: "'f header_tables \<Rightarrow> string list" where
  "header_names HD = FLOATHDRS HD @ INTHDRS HD @ STRHDRS HD"

definition wf_tables :: "'f header_tables \<Rightarrow> bool" where
  "wf_tables HD =
     (length (FLOATHDRS HD) = 70 \<and> length (INTHDRS HD) = 40 \<and> length (STRHDRS HD) = 24 \<and>
      distinct (header_names HD) \<and>
      STRHDRS HD ! 1 = ''kevnm'' \<and> STRHDRS HD ! 2 = ''kevnm2'' \<and>
      ''lcalda'' \<in> set (INTHDRS HD) \<and> S8 (SNULL HD) = SNULL HD)"

text \<open>The two halves the event name is stored as: eight characters each, padded with spaces.\<close>

definition first_half :: "string \<Rightarrow> string" where
  "first_half s = ljust8 (take 8 s)"

definition second_half :: "string \<Rightarrow> string" where
  "second_half s = ljust8 (take 8 (drop 8 s))"

text \<open>
  A value fits its field when the array stores it as it is: a float in a float field, an
  integer of 32 bits in an int field, an ASCII string that an eight-byte field holds
  unchanged (at most eight bytes, the last one not NUL) in a string field, and for the
  event name an ASCII string whose two halves are held unchanged.
\<close>

definition fits :: "'f header_tables \<Rightarrow> string \<Rightarrow> 'f hval \<Rightarrow> bool" where
  "fits HD k v =
     (if k \<in> set (FLOATHDRS HD) then (case v of HFloat x \<Rightarrow> True | _ \<Rightarrow> False)
      else if k \<in> set (INTHDRS HD) then
        (case v of HInt n \<Rightarrow> - (2 ^ 31) \<le> n \<and> n < 2 ^ 31 | _ \<Rightarrow> False)
      else if k = ''kevnm'' then
        (case v of
           HStr s \<Rightarrow> is_ascii (first_half s) \<and> is_ascii (second_half s) \<and>
                     S8 (first_half s) = first_half s \<and> S8 (second_half s) = second_half s
         | _ \<Rightarrow> False)
      else (case v of HStr s \<Rightarrow> is_ascii s \<and> S8 s = s | _ \<Rightarrow> False))"

text \<open>The null value of the kind of array a field lives in.\<close>

definition null_of :: "'f header_tables \<Rightarrow> string \<Rightarrow> 'f hval" where
  "null_of HD k =
     (if k \<in> set (FLOATHDRS HD) then HFloat (FNULL HD)
      else if k \<in> set (INTHDRS HD) then HInt (INULL HD)
      else HStr (SNULL HD))"

text \<open>What a field holds when the dictionary does not set it, unless that is null.\<close>

definition default_of :: "'f header_tables \<Rightarrow> string \<Rightarrow> 'f hval option" where
  "default_of HD k =
     (case index_of (INTHDRS HD) k of
        None \<Rightarrow> None
      | Some i \<Rightarrow>
          (let d = null_int_header HD ! i in if d = INULL HD then None else Some (HInt d)))"

text \<open>The event name as it comes back: its halves, each left out when it is the null string.\<close>

definition joined_name :: "'f header_tables \<Rightarrow> string \<Rightarrow> 'f hval option" where
  "joined_name HD s =
     (if second_half s \<noteq> SNULL HD then
        (if first_half s \<noteq> SNULL HD then Some (HStr (first_half s @ second_half s))
         else Some (HStr (second_half s)))
      else if first_half s \<noteq> SNULL HD then Some (HStr (first_half s))
      else None)"

text \<open>
  The dictionary the round trip returns for a dictionary \<open>header\<close>: a key it sets comes
  back with its value unless that is the null value of its kind; a key it does not set
  comes back with the default of the field, if that is not null; the event name comes back
  joined from its halves, and the second name field never comes back.
\<close>

definition expected :: "'f header_tables \<Rightarrow> (string \<times> 'f hval) list \<Rightarrow> (string \<rightharpoonup> 'f hval)" where
  "expected HD header = (\<lambda>k.
     if k = ''kevnm2'' then None
     else if k = ''kevnm'' then
       (case map_of header k of Some (HStr s) \<Rightarrow> joined_name HD s | _ \<Rightarrow> None)
     else
       (case map_of header k of
          Some v \<Rightarrow> if v = null_of HD k then None else Some v
        | None \<Rightarrow> default_of HD k))"

text \<open>
  The elements of the three arrays once the loop of dict_to_header_arrays has stored a
  dictionary \<open>h\<close> of fitting values into arrays with the elements \<open>xs\<close>: a field the
  dictionary sets holds the value, every other field what it held before.
\<close>

fun float_or :: "'f hval option \<Rightarrow> 'f \<Rightarrow> 'f" where
  "float_or (Some (HFloat x)) d = x"
| "float_or _ d = d"

fun int_or :: "'f hval option \<Rightarrow> int \<Rightarrow> int" where
  "int_or (Some (HInt n)) d = n"
| "int_or _ d = d"

fun str_or :: "(string \<Rightarrow> string) \<Rightarrow> 'f hval option \<Rightarrow> string \<Rightarrow> string" where
  "str_or g (Some (HStr s)) d = g s"
| "str_or g _ d = d"

definition float_slots :: "'f header_tables \<Rightarrow> (string \<times> 'f hval) list \<Rightarrow> 'f list \<Rightarrow> 'f list" where
  "float_slots HD h xs =
     map (\<lambda>i. float_or (map_of h (FLOATHDRS HD ! i)) (xs ! i)) [0..<length xs]"

definition int_slots :: "'f header_tables \<Rightarrow> (string \<times> 'f hval) list \<Rightarrow> int list \<Rightarrow> int list" where
  "int_slots HD h xs =
     map (\<lambda>i. int_or (map_of h (INTHDRS HD ! i)) (xs ! i)) [0..<length xs]"

definition str_slots :: "'f header_tables \<Rightarrow> (string \<times> 'f hval) list \<Rightarrow> string list \<Rightarrow> string list" where
  "str_slots HD h xs =
     map (\<lambda>i. if i = 1 then str_or (\<lambda>s. S8 (first_half s)) (map_of h ''kevnm'') (xs ! i)
              else if i = 2 then str_or (\<lambda>s. S8 (second_half s)) (map_of h ''kevnm'') (xs ! i)
              else str_or S8 (map_of h (STRHDRS HD ! i)) (xs ! i))
       [0..<length xs]"

text \<open>The dictionary header_arrays_to_dict builds before it merges the two name fields.\<close>

definition unmerged :: "'f header_tables \<Rightarrow> 'f list \<Rightarrow> int list \<Rightarrow> string list \<Rightarrow> (string \<rightharpoonup> 'f hval)" where
  "unmerged HD hf hi hs =
     dict_of
      (map (\<lambda>(key, val). (key, HFloat val))
         (filter (\<lambda>(key, val). val \<noteq> FNULL HD) (zip (FLOATHDRS HD) hf)) @
       map (\<lambda>(key, val). (key, HInt val))
         (filter (\<lambda>(key, val). val \<noteq> INULL HD) (zip (INTHDRS HD) hi)) @
       map (\<lambda>(key, val). (key, HStr val))
         (filter (\<lambda>(key, val). val \<noteq> SNULL HD) (zip (STRHDRS HD) hs)))"


text \<open>Two header dictionaries of fitting values.\<close>

definition example_header :: "(string \<times> (32 word) hval) list" where
  "example_header =
     [(''kevnm'', HStr ''ABCDEFGH12345678''), (''delta'', HFloat 5), (''npts'', HInt 10),
      (''kstnm'', HStr ''ANMO''), (''lcalda'', HInt (- 12345))]"

definition short_name_header :: "(string \<times> (32 word) hval) list" where
  "short_name_header = [(''kevnm'', HStr ''Tohoku''), (''kstnm'', HStr ''ANMO'')]"


section \<open>Theorems\<close>

subsection \<open>init_header_arrays\<close>

lemma index_of_Some_less: "index_of xs x = Some k \<Longrightarrow> k < length xs"
  by (induction xs arbitrary: k) (auto split: if_splits)

lemma index_of_Some_nth: "index_of xs x = Some k \<Longrightarrow> xs ! k = x"
  by (induction xs arbitrary: k) (auto split: if_splits)

lemma index_of_None_iff: "index_of xs x = None \<longleftrightarrow> x \<notin> set xs"
  by (induction xs) auto

lemma set_logicals_ok:
  "i + length hdrs \<le> length hi \<Longrightarrow>
   set_logicals hdrs i hi =
     Inr (map (\<lambda>j. if i \<le> j \<and> j < i + length hdrs \<and> startswith (hdrs ! (j - i)) ''l''
                    then 0 else hi ! j) [0..<length hi])"
proof (induction hdrs arbitrary: i hi)
  case Nil
  then show ?case by (auto intro!: nth_equalityI)
next
  case (Cons hdr hdrs)
  have len: "Suc i + length hdrs \<le> length hi" "i < length hi"
    using Cons.prems by auto
  show ?case
  proof (cases "startswith hdr ''l''")
    case True
    have "set_logicals (hdr # hdrs) i hi = set_logicals hdrs (Suc i) (hi[i := 0])"
      using True len by simp
    also have "\<dots> = Inr (map (\<lambda>j. if Suc i \<le> j \<and> j < Suc i + length hdrs \<and>
                                     startswith (hdrs ! (j - Suc i)) ''l''
                                  then 0 else hi[i := 0] ! j) [0..<length hi])"
      using Cons.IH [of "Suc i" "hi[i := 0]"] len by simp
    also have "\<dots> = Inr (map (\<lambda>j. if i \<le> j \<and> j < i + length (hdr # hdrs) \<and>
                                     startswith ((hdr # hdrs) ! (j - i)) ''l''
                                  then 0 else hi ! j) [0..<length hi])"
      using True by (auto simp: nth_Cons' nth_list_update Suc_diff_le intro!: nth_equalityI)
    finally show ?thesis .
  next
    case False
    have "set_logicals (hdr # hdrs) i hi = set_logicals hdrs (Suc i) hi"
      using False by simp
    also have "\<dots> = Inr (map (\<lambda>j. if Suc i \<le> j \<and> j < Suc i + length hdrs \<and>
                                     startswith (hdrs ! (j - Suc i)) ''l''
                                  then 0 else hi ! j) [0..<length hi])"
      using Cons.IH [of "Suc i" hi] len by simp
    also have "\<dots> = Inr (map (\<lambda>j. if i \<le> j \<and> j < i + length (hdr # hdrs) \<and>
                                     startswith ((hdr # hdrs) ! (j - i)) ''l''
                                  then 0 else hi ! j) [0..<length hi])"
      using False by (auto simp: nth_Cons' Suc_diff_le intro!: nth_equalityI)
    finally show ?thesis .
  qed
qed

lemma init_array_int:
  assumes bo: "dtype_order_of native byteorder = Inr bo"
    and len: "length (INTHDRS HD) \<le> 40"
    and k: "index_of (INTHDRS HD) ''lcalda'' = Some k"
  shows "init_array HD native ''int'' byteorder =
           Inr (HI \<lparr>dtype_order = bo, elems = null_int_header HD\<rparr>)"
proof -
  let ?hi = "map (\<lambda>j. if j < length (INTHDRS HD) \<and> startswith (INTHDRS HD ! j) ''l''
                       then 0 else INULL HD) [0..<40]"
  have sl: "set_logicals (INTHDRS HD) 0 (replicate 40 (INULL HD)) = Inr ?hi"
    using set_logicals_ok [of 0 "INTHDRS HD" "replicate 40 (INULL HD)"] len
    by (auto intro!: nth_equalityI)
  have k40: "k < 40"
    using index_of_Some_less [OF k] len by simp
  have upd: "?hi[k := 1] = null_int_header HD"
    unfolding null_int_header_def using k k40
    by (auto simp: nth_list_update intro!: nth_equalityI)
  show ?thesis
    unfolding init_array_def using bo sl k k40 upd by simp
qed

lemma init_array_recognized:
  assumes "dtype_order_of native byteorder = Inr bo"
    and "length (INTHDRS HD) \<le> 40"
    and "index_of (INTHDRS HD) ''lcalda'' = Some k"
    and "S8 (SNULL HD) = SNULL HD"
    and "itype \<in> {''float'', ''int'', ''str''}"
  shows "init_array HD native itype byteorder = Inr (null_array HD bo itype)"
proof -
  consider "itype = ''float''" | "itype = ''int''" | "itype = ''str''"
    using assms(5) by auto
  then show ?thesis
  proof cases
    case 1
    then show ?thesis using assms(1) by (simp add: init_array_def null_array_def)
  next
    case 2
    then show ?thesis using init_array_int [OF assms(1-3)] by (simp add: null_array_def)
  next
    case 3
    then show ?thesis using assms(4) by (simp add: init_array_def null_array_def)
  qed
qed

lemma init_array_unrecognized:
  "itype \<notin> {''float'', ''int'', ''str''} \<Longrightarrow>
   init_array HD native itype byteorder = Inl (ValueError ''Unrecognized header array type'')"
  by (simp add: init_array_def)

text \<open>
  Claim C9. For table with at most 40 int field names, \<open>lcalda\<close> among them, a null string
  that an \<open>S8\<close> element holds unchanged, and a byte order numpy understands: when every
  requested kind is one of float, int and str, init_header_arrays returns one array per
  requested kind, in the requested order, and each is the null array of its kind (70 null
  floats; 40 ints that are null except 0 at the logical fields and 1 at \<open>lcalda\<close>; 24 null
  strings); when some requested kind is not recognized, it fails with ValueError.
\<close>

theorem init_header_arrays_null_or_ValueError:
  assumes "dtype_order_of native byteorder = Inr bo"
    and "length (INTHDRS HD) \<le> 40"
    and "index_of (INTHDRS HD) ''lcalda'' = Some k"
    and "S8 (SNULL HD) = SNULL HD"
  shows "init_header_arrays HD native arrays byteorder =
           (if set arrays \<subseteq> {''float'', ''int'', ''str''}
            then Inr (map (null_array HD bo) arrays)
            else Inl (ValueError ''Unrecognized header array type''))"
proof (induction arrays)
  case Nil
  show ?case by simp
next
  case (Cons itype arrays)
  show ?case
  proof (cases "itype \<in> {''float'', ''int'', ''str''}")
    case True
    have "init_array HD native itype byteorder = Inr (null_array HD bo itype)"
      using init_array_recognized [OF assms True] .
    then show ?thesis using Cons.IH True by simp
  next
    case False
    have "init_array HD native itype byteorder = Inl (ValueError ''Unrecognized header array type'')"
      using init_array_unrecognized [OF False] .
    then show ?thesis using False by simp
  qed
qed

theorem init_header_arrays_null_or_ValueError_witness:
  "init_header_arrays sac_header Little [''str'', ''int'', ''float''] ''>'' =
     Inr [HS (replicate 24 ''-12345  ''),
          HI \<lparr>dtype_order = Big, elems = replicate 35 (- 12345) @ [0, 0, 0, 1, - 12345]\<rparr>,
          HF \<lparr>dtype_order = Big, elems = replicate 70 0xC640E400\<rparr>]
   \<and> init_header_arrays sac_header Little [''int'', ''double''] ''>'' =
     Inl (ValueError ''Unrecognized header array type'')"
proof -
  have a: "dtype_order_of Little ''>'' = Inr Big"
    by (simp add: dtype_order_of_def)
  have b: "length (INTHDRS sac_header) \<le> 40"
    by (simp add: sac_header_def sac_tables_def)
  have c: "index_of (INTHDRS sac_header) ''lcalda'' = Some 38"
    by (simp add: sac_header_def sac_tables_def)
  have d: "S8 (SNULL sac_header) = SNULL sac_header"
    by (simp add: sac_header_def sac_tables_def S8_def rstrip_nul_def)
  have e: "null_int_header sac_header = replicate 35 (- 12345) @ [0, 0, 0, 1, - 12345]"
    by (simp add: null_int_header_def sac_header_def sac_tables_def startswith_def upt_rec numeral_eq_Suc)
  show ?thesis
    using init_header_arrays_null_or_ValueError [OF a b c d, of "[''str'', ''int'', ''float'']"]
      init_header_arrays_null_or_ValueError [OF a b c d, of "[''int'', ''double'']"] e
    by (simp add: null_array_def sac_header_def sac_tables_def)
qed

subsection \<open>read_sac\<close>

lemma f_read_open:
  "\<not> closed f \<Longrightarrow> pos f + n \<le> length (content f) \<Longrightarrow>
   f_read (int n) f = (Inr (take n (drop (pos f) (content f))), f\<lparr>pos := pos f + n\<rparr>)"
  by (simp add: f_read_def Let_def min_def)

lemma from_buffer_exact:
  "length b = k * n \<Longrightarrow> 0 < n \<Longrightarrow> from_buffer b n = Inr (items_of n b k)"
  by (cases "b = []") (auto simp: from_buffer_def)

lemma read_header_complete:
  assumes "\<not> closed f" and "pos f + 632 \<le> length (content f)"
  shows "read_header HD bo spec f =
     (let hf = \<lparr>dtype_order = bo, elems = hf_items f\<rparr>;
          hi = \<lparr>dtype_order = bo, elems = hi_items f\<rparr>;
          hs = map S8 (hs_items f);
          f' = f\<lparr>pos := pos f + 632\<rparr>
      in case is_valid_byteorder HD hi of
           Inl e \<Rightarrow> (Inl e, f')
         | Inr valid \<Rightarrow>
             if valid then (Inr (hf, hi, hs), f')
             else if spec then (Inl (SacIOError ''Incorrect byteorder''), f')
             else (Inr (newbyteorder_S hf, newbyteorder_S hi, hs), f'))"
proof -
  let ?c = "content f"
  let ?f1 = "f\<lparr>pos := pos f + 280\<rparr>"
  let ?f2 = "f\<lparr>pos := pos f + 440\<rparr>"
  have r1: "f_read 280 f = (Inr (take 280 (drop (pos f) ?c)), ?f1)"
    using f_read_open [of f 280] assms by simp
  have r2: "f_read 160 ?f1 = (Inr (take 160 (drop (pos f + 280) ?c)), ?f2)"
    using f_read_open [of ?f1 160] assms by simp
  have r3: "f_read 192 ?f2 = (Inr (take 192 (drop (pos f + 440) ?c)), f\<lparr>pos := pos f + 632\<rparr>)"
    using f_read_open [of ?f2 192] assms by simp
  have b1: "from_buffer (take 280 (drop (pos f) ?c)) 4 = Inr (hf_items f)"
    unfolding hf_items_def using assms by (intro from_buffer_exact) auto
  have b2: "from_buffer (take 160 (drop (pos f + 280) ?c)) 4 = Inr (hi_items f)"
    unfolding hi_items_def using assms by (intro from_buffer_exact) auto
  have b3: "from_buffer (take 192 (drop (pos f + 440) ?c)) 8 = Inr (hs_items f)"
    unfolding hs_items_def using assms by (intro from_buffer_exact) auto
  show ?thesis
    unfolding read_header_def
    by (simp add: io_bind_def io_lift_def io_return_def io_raise_def r1 r2 r3 b1 b2 b3 Let_def
          split: sum.splits)
qed

lemma read_sac_stream_header:
  assumes "byteorder \<in> {None, Some ''little'', Some ''big''}"
  shows "read_sac_stream HD native is_file_name headonly byteorder checksize =
           io_bind (read_header HD (assumed_order native byteorder) (byteorder \<noteq> None))
             (after_header HD is_file_name headonly checksize)"
  using assms by (auto simp: read_sac_stream_def assumed_order_def split: endian.splits)


lemma length_items_of: "length (items_of n b k) = k"
  by (induction k arbitrary: b) auto

lemma read_header_result:
  assumes "\<not> closed f" and "pos f + 632 \<le> length (content f)"
    and "read_header HD bo spec f = (Inr (hf, hi, hs), f1)"
  shows "f1 = f\<lparr>pos := pos f + 632\<rparr> \<and> length (elems hf) = 70 \<and> length (elems hi) = 40 \<and>
         length hs = 24 \<and> elems hf = hf_items f \<and> elems hi = hi_items f \<and> hs = map S8 (hs_items f)"
  using assms(3) unfolding read_header_complete [OF assms(1,2)]
  by (auto simp: Let_def newbyteorder_S_def hf_items_def hi_items_def hs_items_def length_items_of
      split: sum.splits if_splits)

lemma check_file_size_open:
  "\<not> closed f \<Longrightarrow>
   check_file_size npts f =
     ((if int (length (content f)) \<noteq> 632 + 4 * npts then Inl size_error else Inr ()), f)"
  by (simp add: check_file_size_def io_bind_def f_tell_def f_seek_end_def f_seek_set_def
      io_raise_def io_return_def size_error_def Let_def)

lemma read_data_exact:
  assumes "\<not> closed f" and "pos f = 632" and "int (length (content f)) = 632 + 4 * npts"
    and "632 \<le> length (content f)"
  shows "read_data False bo npts f =
           (Inr (Some \<lparr>dtype_order = bo, elems = items_of 4 (drop 632 (content f)) (nat npts)\<rparr>),
            f\<lparr>pos := length (content f)\<rparr>)"
proof -
  let ?rest = "drop 632 (content f)"
  have n0: "0 \<le> npts" using assms(3,4) by linarith
  have len: "length ?rest = nat npts * 4" using assms(3) n0 by (simp add: nat_eq_iff)
  have rd: "f_read (npts * 4) f = (Inr ?rest, f\<lparr>pos := length (content f)\<rparr>)"
    using assms n0 len by (simp add: f_read_def Let_def nat_mult_distrib)
  have fb: "from_buffer ?rest 4 = Inr (items_of 4 ?rest (nat npts))"
    using from_buffer_exact [OF len] by simp
  show ?thesis
    unfolding read_data_def
    using n0 by (simp add: io_bind_def io_lift_def io_return_def rd fb length_items_of)
qed

lemma after_header_checksize:
  assumes "\<not> closed f1" and "pos f1 = 632" and "632 \<le> length (content f1)"
    and "length (elems hf) = 70" and "length (elems hi) = 40" and "length hs = 24"
    and "get_npts HD hi = Inr npts"
  shows "after_header HD is_file_name headonly True (hf, hi, hs) f1 =
     (if int (length (content f1)) \<noteq> 632 + 4 * npts then (Inl size_error, f1)
      else (Inr (hf, hi, hs,
                 if headonly then None
                 else Some \<lparr>dtype_order = dtype_order hi,
                            elems = items_of 4 (drop 632 (content f1)) (nat npts)\<rparr>),
            f1\<lparr>pos := (if headonly then 632 else length (content f1)),
               closed := is_file_name\<rparr>))"
proof (cases "int (length (content f1)) \<noteq> 632 + 4 * npts")
  case True
  then show ?thesis
    using assms
    by (simp add: after_header_def check_header_lengths_def io_bind_def io_return_def io_lift_def
        check_file_size_open)
next
  case False
  then have eq: "int (length (content f1)) = 632 + 4 * npts" by simp
  show ?thesis
  proof (cases headonly)
    case True
    then show ?thesis
      using assms eq
      by (simp add: after_header_def check_header_lengths_def io_bind_def io_return_def io_lift_def
          check_file_size_open read_data_def f_close_def)
  next
    case False
    then show ?thesis
      using assms eq read_data_exact [OF assms(1,2) eq assms(3), of "dtype_order hi"]
      by (simp add: after_header_def check_header_lengths_def io_bind_def io_return_def io_lift_def
          check_file_size_open f_close_def)
  qed
qed

lemma never_raises_bind:
  "never_raises e m \<Longrightarrow> (\<And>x. never_raises e (k x)) \<Longrightarrow> never_raises e (io_bind m k)"
proof -
  assume m: "never_raises e m" and k: "\<And>x. never_raises e (k x)"
  show ?thesis
    unfolding never_raises_def
  proof
    fix f
    obtain r f' where mf: "m f = (r, f')" by (cases "m f") auto
    have r: "r \<noteq> Inl e" using m mf unfolding never_raises_def by (metis fst_conv)
    show "fst (io_bind m k f) \<noteq> Inl e"
    proof (cases r)
      case (Inl e')
      then show ?thesis using r mf by (simp add: io_bind_def)
    next
      case (Inr x)
      then show ?thesis using k [of x] mf by (simp add: io_bind_def never_raises_def)
    qed
  qed
qed

lemma never_raises_return: "never_raises e (io_return x)"
  by (simp add: never_raises_def io_return_def)

lemma never_raises_raise: "e' \<noteq> e \<Longrightarrow> never_raises e (io_raise e')"
  by (simp add: never_raises_def io_raise_def)

lemma never_raises_lift: "r \<noteq> Inl e \<Longrightarrow> never_raises e (io_lift r)"
  by (simp add: never_raises_def io_lift_def)

lemma never_raises_if:
  "never_raises e m \<Longrightarrow> never_raises e m' \<Longrightarrow> never_raises e (if c then m else m')"
  by simp

lemma never_raises_read: "never_raises size_error (f_read n)"
  by (simp add: never_raises_def f_read_def size_error_def closed_error_def Let_def)

lemma never_raises_close: "never_raises e f_close"
  by (simp add: never_raises_def f_close_def)

lemma from_buffer_not_size_error: "from_buffer b n \<noteq> Inl size_error"
  by (simp add: from_buffer_def size_error_def)

lemma is_valid_byteorder_not_size_error: "is_valid_byteorder HD hi \<noteq> Inl size_error"
  by (simp add: is_valid_byteorder_def size_error_def Let_def split: option.splits)

lemma get_npts_not_size_error: "get_npts HD hi \<noteq> Inl size_error"
  by (simp add: get_npts_def size_error_def split: option.splits)

lemma read_header_never_size_error: "never_raises size_error (read_header HD bo spec)"
  unfolding read_header_def Let_def
  by (intro never_raises_bind never_raises_read never_raises_lift never_raises_if
        never_raises_return never_raises_raise from_buffer_not_size_error
        is_valid_byteorder_not_size_error)
     (simp add: size_error_def)

lemma after_header_never_size_error:
  "never_raises size_error (after_header HD is_file_name headonly False hdr)"
proof -
  obtain hf hi hs where hdr: "hdr = (hf, hi, hs)" by (cases hdr) auto
  have a: "never_raises size_error (check_header_lengths is_file_name hf hi hs)"
    unfolding check_header_lengths_def
    by (intro never_raises_bind never_raises_if never_raises_return never_raises_raise
          never_raises_close) (simp add: size_error_def)
  have b: "never_raises size_error (read_data headonly bo npts)" for bo npts
    unfolding read_data_def
    by (intro never_raises_bind never_raises_if never_raises_return never_raises_raise
          never_raises_close never_raises_read never_raises_lift from_buffer_not_size_error)
       (simp add: size_error_def)
  show ?thesis
    unfolding hdr after_header_def prod.case
    by (simp only: if_False)
       (intro never_raises_bind never_raises_if never_raises_return never_raises_close
          never_raises_lift get_npts_not_size_error a b)
qed

lemma read_sac_stream_never_size_error:
  "never_raises size_error (read_sac_stream HD native is_file_name headonly byteorder False)"
  unfolding read_sac_stream_def Let_def
  by (intro never_raises_if never_raises_raise never_raises_bind read_header_never_size_error
        after_header_never_size_error)
     (simp add: size_error_def)

lemma le_file_length: "length le_file = 640"
  by (simp add: le_file_def le_int_header_def)

lemma hi_items_le_file: "hi_items (open_at_0 le_file) = items_of 4 le_int_header 40"
  by (simp add: hi_items_def open_at_0_def le_file_def le_int_header_def)

lemma le_file_invalid_as_big:
  "is_valid_byteorder sac_header \<lparr>dtype_order = Big, elems = items_of 4 le_int_header 40\<rparr> = Inr False"
  by code_simp

lemma le_file_valid_as_little:
  "is_valid_byteorder sac_header \<lparr>dtype_order = Little, elems = items_of 4 le_int_header 40\<rparr> = Inr True"
  by code_simp

lemma le_file_npts:
  "get_npts sac_header \<lparr>dtype_order = Little, elems = items_of 4 le_int_header 40\<rparr> = Inr 2"
  by code_simp

lemma after_header_headonly:
  assumes "length (elems hf) = 70" and "length (elems hi) = 40" and "length hs = 24"
    and "get_npts HD hi = Inr npts"
  shows "after_header HD False True False (hf, hi, hs) f = (Inr (hf, hi, hs, None), f)"
  using assms
  by (simp add: after_header_def check_header_lengths_def io_bind_def io_return_def io_lift_def
      read_data_def)

text \<open>
  Claim C1. Let the stream be open with the 632 header bytes ahead of its position, and let
  the int header, read under the byte order the call assumes (the caller's, or the native
  one), fail is_valid_byteorder. When the caller gave a byte order, read_sac raises
  SacIOError (incorrect byteorder). When the caller gave none, read_sac goes on, from the
  position right after the 632 bytes (nothing is read again), with the arrays that hold the
  same items under the swapped byte order.
\<close>

theorem read_sac_invalid_byteorder:
  assumes "\<not> closed f" and "pos f + 632 \<le> length (content f)"
    and "byteorder \<in> {None, Some ''little'', Some ''big''}"
    and "is_valid_byteorder HD
           \<lparr>dtype_order = assumed_order native byteorder, elems = hi_items f\<rparr> = Inr False"
  shows "read_sac_stream HD native is_file_name headonly byteorder checksize f =
     (if byteorder \<noteq> None
      then (Inl (SacIOError ''Incorrect byteorder''), f\<lparr>pos := pos f + 632\<rparr>)
      else after_header HD is_file_name headonly checksize
             (\<lparr>dtype_order = swapped native, elems = hf_items f\<rparr>,
              \<lparr>dtype_order = swapped native, elems = hi_items f\<rparr>,
              map S8 (hs_items f))
             (f\<lparr>pos := pos f + 632\<rparr>))"
proof -
  have hdr: "read_header HD (assumed_order native byteorder) (byteorder \<noteq> None) f =
      (if byteorder \<noteq> None
       then (Inl (SacIOError ''Incorrect byteorder''), f\<lparr>pos := pos f + 632\<rparr>)
       else (Inr (\<lparr>dtype_order = swapped native, elems = hf_items f\<rparr>,
                  \<lparr>dtype_order = swapped native, elems = hi_items f\<rparr>,
                  map S8 (hs_items f)), f\<lparr>pos := pos f + 632\<rparr>))"
    using read_header_complete [OF assms(1,2), of HD "assumed_order native byteorder" "byteorder \<noteq> None"]
      assms(4)
    by (auto simp: Let_def newbyteorder_S_def assumed_order_def)
  show ?thesis
    unfolding read_sac_stream_header [OF assms(3)] io_bind_def hdr by simp
qed

theorem read_sac_invalid_byteorder_witness:
  "read_sac_stream sac_header Big False True (Some ''big'') False (open_at_0 le_file) =
     (Inl (SacIOError ''Incorrect byteorder''), \<lparr>content = le_file, pos = 632, closed = False, buffered = False\<rparr>)
   \<and> read_sac_stream sac_header Big False True None False (open_at_0 le_file) =
     (Inr (\<lparr>dtype_order = Little, elems = hf_items (open_at_0 le_file)\<rparr>,
           \<lparr>dtype_order = Little, elems = hi_items (open_at_0 le_file)\<rparr>,
           map S8 (hs_items (open_at_0 le_file)), None),
      \<lparr>content = le_file, pos = 632, closed = False, buffered = False\<rparr>)"
proof -
  let ?f = "open_at_0 le_file"
  have h1: "\<not> closed ?f" by (simp add: open_at_0_def)
  have h2: "pos ?f + 632 \<le> length (content ?f)" by (simp add: open_at_0_def le_file_length)
  have h3a: "Some ''big'' \<in> {None, Some ''little'', Some ''big''}" by simp
  have h3b: "None \<in> {None, Some ''little'', Some ''big''}" by simp
  have h4a: "is_valid_byteorder sac_header
      \<lparr>dtype_order = assumed_order Big (Some ''big''), elems = hi_items ?f\<rparr> = Inr False"
    using le_file_invalid_as_big by (simp add: assumed_order_def hi_items_le_file)
  have h4b: "is_valid_byteorder sac_header
      \<lparr>dtype_order = assumed_order Big None, elems = hi_items ?f\<rparr> = Inr False"
    using le_file_invalid_as_big by (simp add: assumed_order_def hi_items_le_file)
  have a: "read_sac_stream sac_header Big False True (Some ''big'') False ?f =
     (Inl (SacIOError ''Incorrect byteorder''), ?f\<lparr>pos := pos ?f + 632\<rparr>)"
    using read_sac_invalid_byteorder [OF h1 h2 h3a h4a, where is_file_name = False and headonly = True and checksize = False] by simp
  have b: "read_sac_stream sac_header Big False True None False ?f =
     after_header sac_header False True False
       (\<lparr>dtype_order = swapped Big, elems = hf_items ?f\<rparr>,
        \<lparr>dtype_order = swapped Big, elems = hi_items ?f\<rparr>,
        map S8 (hs_items ?f))
       (?f\<lparr>pos := pos ?f + 632\<rparr>)"
    using read_sac_invalid_byteorder [OF h1 h2 h3b h4b, where is_file_name = False and headonly = True and checksize = False] by simp
  have c: "after_header sac_header False True False
       (\<lparr>dtype_order = swapped Big, elems = hf_items ?f\<rparr>,
        \<lparr>dtype_order = swapped Big, elems = hi_items ?f\<rparr>,
        map S8 (hs_items ?f))
       (?f\<lparr>pos := pos ?f + 632\<rparr>) =
     (Inr (\<lparr>dtype_order = swapped Big, elems = hf_items ?f\<rparr>,
           \<lparr>dtype_order = swapped Big, elems = hi_items ?f\<rparr>,
           map S8 (hs_items ?f), None), ?f\<lparr>pos := pos ?f + 632\<rparr>)"
    by (rule after_header_headonly [where npts = 2])
       (simp_all add: hf_items_def hi_items_def [of ?f] hs_items_def length_items_of swapped_def
          hi_items_le_file [unfolded hi_items_def] le_file_npts)
  show ?thesis using a b c by (simp add: open_at_0_def swapped_def)
qed

text \<open>
  Claim C7. Let the stream be open at position 0 with the 632 header bytes in it, let the
  header be read (the byte order resolved) and let \<open>npts\<close> be the value of its int field.
  With \<open>checksize\<close> set: the size check raises SacIOError exactly when the length of the
  stream differs from \<open>632 + 4 * npts\<close>, and leaves the stream as it found it (the read
  position is restored); read_sac then fails with that error, the position still right
  after the header, or returns the header arrays and the data read from byte 632 on.
  Without \<open>checksize\<close>, read_sac never raises the SacIOError of the size check.
\<close>

theorem read_sac_checksize:
  assumes "\<not> closed f" and "pos f = 0" and "632 \<le> length (content f)"
    and "byteorder \<in> {None, Some ''little'', Some ''big''}"
    and "read_header HD (assumed_order native byteorder) (byteorder \<noteq> None) f = (Inr (hf, hi, hs), f1)"
    and "get_npts HD hi = Inr npts"
  shows "check_file_size npts f1 =
           ((if int (length (content f)) \<noteq> 632 + 4 * npts then Inl size_error else Inr ()), f1)
       \<and> read_sac_stream HD native is_file_name headonly byteorder True f =
           (if int (length (content f)) \<noteq> 632 + 4 * npts
            then (Inl size_error, f\<lparr>pos := 632\<rparr>)
            else (Inr (hf, hi, hs,
                       if headonly then None
                       else Some \<lparr>dtype_order = dtype_order hi,
                                  elems = items_of 4 (drop 632 (content f)) (nat npts)\<rparr>),
                  f\<lparr>pos := (if headonly then 632 else length (content f)),
                    closed := is_file_name\<rparr>))
       \<and> never_raises size_error (read_sac_stream HD native is_file_name headonly byteorder False)"
proof -
  have p: "pos f + 632 \<le> length (content f)" using assms(2,3) by simp
  note r = read_header_result [OF assms(1) p assms(5)]
  have f1: "f1 = f\<lparr>pos := 632\<rparr>" using r assms(2) by simp
  have c1: "\<not> closed f1" "pos f1 = 632" "632 \<le> length (content f1)" "content f1 = content f"
    using f1 assms(1,3) by simp_all
  have A: "check_file_size npts f1 =
           ((if int (length (content f)) \<noteq> 632 + 4 * npts then Inl size_error else Inr ()), f1)"
    using check_file_size_open [OF c1(1), of npts] c1(4) by simp
  have "after_header HD is_file_name headonly True (hf, hi, hs) f1 =
     (if int (length (content f1)) \<noteq> 632 + 4 * npts then (Inl size_error, f1)
      else (Inr (hf, hi, hs,
                 if headonly then None
                 else Some \<lparr>dtype_order = dtype_order hi,
                            elems = items_of 4 (drop 632 (content f1)) (nat npts)\<rparr>),
            f1\<lparr>pos := (if headonly then 632 else length (content f1)),
               closed := is_file_name\<rparr>))"
  proof -
    have l1: "length (elems hf) = 70" using r by blast
    have l2: "length (elems hi) = 40" using r by blast
    have l3: "length hs = 24" using r by blast
    show ?thesis
      by (rule after_header_checksize [OF c1(1-3) l1 l2 l3 assms(6)])
  qed
  then have B: "read_sac_stream HD native is_file_name headonly byteorder True f =
           (if int (length (content f)) \<noteq> 632 + 4 * npts
            then (Inl size_error, f\<lparr>pos := 632\<rparr>)
            else (Inr (hf, hi, hs,
                       if headonly then None
                       else Some \<lparr>dtype_order = dtype_order hi,
                                  elems = items_of 4 (drop 632 (content f)) (nat npts)\<rparr>),
                  f\<lparr>pos := (if headonly then 632 else length (content f)),
                    closed := is_file_name\<rparr>))"
    unfolding read_sac_stream_header [OF assms(4)] io_bind_def assms(5) prod.case sum.case
    by (simp add: f1)
  show ?thesis
    using A B read_sac_stream_never_size_error by blast
qed

theorem read_sac_checksize_witness:
  "read_sac_stream sac_header Little True False None True (open_at_0 le_file) =
     (Inr (\<lparr>dtype_order = Little, elems = hf_items (open_at_0 le_file)\<rparr>,
           \<lparr>dtype_order = Little, elems = hi_items (open_at_0 le_file)\<rparr>,
           map S8 (hs_items (open_at_0 le_file)),
           Some \<lparr>dtype_order = Little, elems = [replicate 4 (CHR 0x00), replicate 4 (CHR 0x00)]\<rparr>),
      \<lparr>content = le_file, pos = 640, closed = True, buffered = False\<rparr>)"
proof -
  let ?f = "open_at_0 le_file"
  let ?hf = "\<lparr>dtype_order = Little, elems = hf_items ?f\<rparr>"
  let ?hi = "\<lparr>dtype_order = Little, elems = hi_items ?f\<rparr>"
  have h1: "\<not> closed ?f" and h2: "pos ?f = 0" and h3: "632 \<le> length (content ?f)"
    by (simp_all add: open_at_0_def le_file_length)
  have h2': "pos ?f + 632 \<le> length (content ?f)" using h2 h3 by simp
  have h4: "None \<in> {None, Some ''little'', Some ''big''}" by simp
  have v: "is_valid_byteorder sac_header ?hi = Inr True"
    using le_file_valid_as_little by (simp add: hi_items_le_file)
  have h5: "read_header sac_header (assumed_order Little None) (None \<noteq> None) ?f =
              (Inr (?hf, ?hi, map S8 (hs_items ?f)), ?f\<lparr>pos := pos ?f + 632\<rparr>)"
    unfolding read_header_complete [OF h1 h2'] by (simp add: assumed_order_def Let_def v)
  have h6: "get_npts sac_header ?hi = Inr 2"
    using le_file_npts by (simp add: hi_items_le_file)
  have d: "items_of 4 (drop 632 le_file) (nat 2) = [replicate 4 (CHR 0x00), replicate 4 (CHR 0x00)]"
    by (simp add: le_file_def le_int_header_def numeral_2_eq_2)
  show ?thesis
    using read_sac_checksize [OF h1 h2 h3 h4 h5 h6, where is_file_name = True and headonly = False] d
    by (simp add: open_at_0_def le_file_length)
qed

lemma f_read_rest:
  "\<not> closed f \<Longrightarrow> length (content f) \<le> pos f + n \<Longrightarrow> pos f \<le> length (content f) \<Longrightarrow>
   f_read (int n) f = (Inr (drop (pos f) (content f)), f\<lparr>pos := length (content f)\<rparr>)"
  by (simp add: f_read_def Let_def)

lemma read_header_short_strings:
  assumes "\<not> closed f" and "length (content f) = pos f + 440 + 8 * k" and "k < 24"
  shows "read_header HD bo spec f =
     (let hf = \<lparr>dtype_order = bo, elems = hf_items f\<rparr>;
          hi = \<lparr>dtype_order = bo, elems = hi_items f\<rparr>;
          hs = map S8 (items_of 8 (drop (pos f + 440) (content f)) k);
          f' = f\<lparr>pos := length (content f)\<rparr>
      in case is_valid_byteorder HD hi of
           Inl e \<Rightarrow> (Inl e, f')
         | Inr valid \<Rightarrow>
             if valid then (Inr (hf, hi, hs), f')
             else if spec then (Inl (SacIOError ''Incorrect byteorder''), f')
             else (Inr (newbyteorder_S hf, newbyteorder_S hi, hs), f'))"
proof -
  let ?c = "content f"
  let ?f1 = "f\<lparr>pos := pos f + 280\<rparr>"
  let ?f2 = "f\<lparr>pos := pos f + 440\<rparr>"
  have r1: "f_read 280 f = (Inr (take 280 (drop (pos f) ?c)), ?f1)"
    using f_read_open [of f 280] assms by simp
  have r2: "f_read 160 ?f1 = (Inr (take 160 (drop (pos f + 280) ?c)), ?f2)"
    using f_read_open [of ?f1 160] assms by simp
  have r3: "f_read 192 ?f2 = (Inr (drop (pos f + 440) ?c), f\<lparr>pos := length ?c\<rparr>)"
    using f_read_rest [of ?f2 192] assms by simp
  have b1: "from_buffer (take 280 (drop (pos f) ?c)) 4 = Inr (hf_items f)"
    unfolding hf_items_def using assms by (intro from_buffer_exact) auto
  have b2: "from_buffer (take 160 (drop (pos f + 280) ?c)) 4 = Inr (hi_items f)"
    unfolding hi_items_def using assms by (intro from_buffer_exact) auto
  have b3: "from_buffer (drop (pos f + 440) ?c) 8 = Inr (items_of 8 (drop (pos f + 440) ?c) k)"
    using assms by (intro from_buffer_exact) auto
  show ?thesis
    unfolding read_header_def
    by (simp add: io_bind_def io_lift_def io_return_def io_raise_def r1 r2 r3 b1 b2 b3 Let_def
          split: sum.splits)
qed

lemma after_header_short:
  assumes "length (elems hf) \<noteq> 70 \<or> length (elems hi) \<noteq> 40 \<or> length hs \<noteq> 24"
  shows "after_header HD is_file_name headonly checksize (hf, hi, hs) f =
           (Inl (SacIOError ''Cannot read all header values''),
            if is_file_name then f else f\<lparr>closed := True\<rparr>)"
  using assms
  by (auto simp: after_header_def check_header_lengths_def io_bind_def io_return_def io_raise_def
      f_close_def)

lemma read_data_short:
  assumes "\<not> closed f" and "pos f = 632" and "length (content f) = 632 + 4 * k" and "int k < npts"
  shows "read_data False bo npts f =
           (Inl (SacIOError ''Cannot read all data points''),
            f\<lparr>pos := length (content f), closed := True\<rparr>)"
proof -
  let ?rest = "drop 632 (content f)"
  have len: "length ?rest = k * 4" using assms(3) by simp
  have "length (content f) \<le> pos f + nat (npts * 4)" using assms by (simp add: nat_mult_distrib)
  then have rd: "f_read (npts * 4) f = (Inr ?rest, f\<lparr>pos := length (content f)\<rparr>)"
    using f_read_rest [of f "nat (npts * 4)"] assms by simp
  have fb: "from_buffer ?rest 4 = Inr (items_of 4 ?rest k)"
    using from_buffer_exact [OF len] by simp
  show ?thesis
    unfolding read_data_def
    using assms(4) by (simp add: io_bind_def io_lift_def io_return_def io_raise_def rd fb
        length_items_of f_close_def)
qed

lemma after_header_short_data:
  assumes "\<not> closed f" and "pos f = 632" and "length (content f) = 632 + 4 * k" and "int k < npts"
    and "length (elems hf) = 70" and "length (elems hi) = 40" and "length hs = 24"
    and "get_npts HD hi = Inr npts"
  shows "after_header HD is_file_name False False (hf, hi, hs) f =
           (Inl (SacIOError ''Cannot read all data points''),
            f\<lparr>pos := length (content f), closed := True\<rparr>)"
  using assms(5-8) read_data_short [OF assms(1-4), of "dtype_order hi"]
  by (simp add: after_header_def check_header_lengths_def io_bind_def io_return_def io_lift_def)

lemma le_int_header_length: "length le_int_header = 160"
  by (simp add: le_int_header_def)

lemma hi_items_prefix:
  "440 \<le> n \<Longrightarrow> hi_items (open_at_0 (take n le_file)) = items_of 4 le_int_header 40"
  by (simp add: hi_items_def open_at_0_def le_file_def le_int_header_length drop_take min_def)

lemma read_sac_fileobj:
  "read_sac HD Little fs (FileObj f) headonly None checksize =
     (case io_bind (read_header HD Little False) (after_header HD False headonly checksize) f of
        (r, f') \<Rightarrow> (r, Some f'))"
  by (simp add: read_sac_def read_sac_stream_def)

lemma read_header_eq: "f = g \<Longrightarrow> read_header HD bo spec f = read_header HD bo spec g"
  by simp

lemma read_sac_path:
  "read_sac HD Little (one_file p b) (Path p) headonly None checksize =
     (case io_bind (read_header HD Little False) (after_header HD True headonly checksize)
             \<lparr>content = b, pos = 0, closed = False, buffered = True\<rparr> of
        (r, f') \<Rightarrow> (r, Some f'))"
  by (simp add: read_sac_def read_sac_stream_def one_file_def)

lemma read_header_short_header_file:
  "\<exists>hs. length hs = 1 \<and>
     read_header sac_header Little False
         \<lparr>content = short_header_file, pos = 0, closed = False, buffered = k\<rparr> =
       (Inr (\<lparr>dtype_order = Little, elems = hf_items (open_at_0 short_header_file)\<rparr>,
             \<lparr>dtype_order = Little, elems = hi_items (open_at_0 short_header_file)\<rparr>, hs),
        \<lparr>content = short_header_file, pos = 448, closed = False, buffered = k\<rparr>)"
proof -
  let ?f = "\<lparr>content = short_header_file, pos = 0, closed = False, buffered = k\<rparr>"
  have l: "length short_header_file = 448"
    by (simp add: short_header_file_def le_file_length)
  have h1: "\<not> closed ?f" by simp
  have h2: "length (content ?f) = pos ?f + 440 + 8 * 1" by (simp add: l)
  have i1: "hf_items ?f = hf_items (open_at_0 short_header_file)"
    by (simp add: hf_items_def open_at_0_def)
  have i2: "hi_items ?f = hi_items (open_at_0 short_header_file)"
    by (simp add: hi_items_def open_at_0_def)
  have v0: "is_valid_byteorder sac_header
              \<lparr>dtype_order = Little, elems = hi_items (open_at_0 short_header_file)\<rparr> = Inr True"
    unfolding short_header_file_def using le_file_valid_as_little by (simp add: hi_items_prefix)
  have v: "is_valid_byteorder sac_header \<lparr>dtype_order = Little, elems = hi_items ?f\<rparr> = Inr True"
    using v0 by (simp only: i2)
  have h3: "(1::nat) < 24" by simp
  have f': "?f\<lparr>pos := length (content ?f)\<rparr> =
            \<lparr>content = short_header_file, pos = 448, closed = False, buffered = k\<rparr>"
    by (simp add: l)
  have "read_header sac_header Little False ?f =
       (Inr (\<lparr>dtype_order = Little, elems = hf_items ?f\<rparr>,
             \<lparr>dtype_order = Little, elems = hi_items ?f\<rparr>,
             map S8 (items_of 8 (drop (pos ?f + 440) (content ?f)) 1)),
        \<lparr>content = short_header_file, pos = 448, closed = False, buffered = k\<rparr>)"
    unfolding read_header_short_strings [OF h1 h2 h3] Let_def v f' by simp
  moreover have "length (map S8 (items_of 8 (drop (pos ?f + 440) (content ?f)) 1)) = 1"
    unfolding length_map length_items_of ..
  ultimately show ?thesis unfolding i1 i2 by blast
qed

lemma read_header_short_data_file:
  "read_header sac_header Little False (open_at_0 short_data_file) =
     (Inr (\<lparr>dtype_order = Little, elems = hf_items (open_at_0 short_data_file)\<rparr>,
           \<lparr>dtype_order = Little, elems = hi_items (open_at_0 short_data_file)\<rparr>,
           map S8 (hs_items (open_at_0 short_data_file))),
      \<lparr>content = short_data_file, pos = 632, closed = False, buffered = False\<rparr>)"
proof -
  let ?f = "open_at_0 short_data_file"
  have l: "length short_data_file = 636"
    by (simp add: short_data_file_def le_file_length)
  have h1: "\<not> closed ?f" by (simp add: open_at_0_def)
  have h2: "pos ?f + 632 \<le> length (content ?f)" by (simp add: open_at_0_def l)
  have v: "is_valid_byteorder sac_header \<lparr>dtype_order = Little, elems = hi_items ?f\<rparr> = Inr True"
    unfolding short_data_file_def using le_file_valid_as_little by (simp add: hi_items_prefix)
  show ?thesis
    unfolding read_header_complete [OF h1 h2] using v by (simp add: Let_def open_at_0_def)
qed

text \<open>
  Claim C4, evaluated where the code departs from it. A stream given by the caller that
  ends after the first string field fails the check of the header lengths, and read_sac
  closes it; the same file opened from a path is left open by that failure. A stream given
  by the caller that ends in the middle of the data is closed as well.
\<close>

theorem read_sac_close_paths:
  "read_sac sac_header Little Map.empty (FileObj (open_at_0 short_header_file)) False None False =
     (Inl (SacIOError ''Cannot read all header values''),
      Some \<lparr>content = short_header_file, pos = 448, closed = True, buffered = False\<rparr>)
   \<and> read_sac sac_header Little (one_file ''a.sac'' short_header_file) (Path ''a.sac'') False None False =
     (Inl (SacIOError ''Cannot read all header values''),
      Some \<lparr>content = short_header_file, pos = 448, closed = False, buffered = True\<rparr>)
   \<and> read_sac sac_header Little Map.empty (FileObj (open_at_0 short_data_file)) False None False =
     (Inl (SacIOError ''Cannot read all data points''),
      Some \<lparr>content = short_data_file, pos = 636, closed = True, buffered = False\<rparr>)"
proof -
  let ?f = "\<lambda>k. \<lparr>content = short_header_file, pos = 0, closed = False, buffered = k\<rparr>"
  let ?g = "\<lambda>k. \<lparr>content = short_header_file, pos = 448, closed = False, buffered = k\<rparr>"
  obtain hs where hs: "length hs = 1"
    and rh: "read_header sac_header Little False (?f False) =
       (Inr (\<lparr>dtype_order = Little, elems = hf_items (open_at_0 short_header_file)\<rparr>,
             \<lparr>dtype_order = Little, elems = hi_items (open_at_0 short_header_file)\<rparr>, hs), ?g False)"
    using read_header_short_header_file [of False] by blast
  obtain hs' where hs': "length hs' = 1"
    and rh': "read_header sac_header Little False (?f True) =
       (Inr (\<lparr>dtype_order = Little, elems = hf_items (open_at_0 short_header_file)\<rparr>,
             \<lparr>dtype_order = Little, elems = hi_items (open_at_0 short_header_file)\<rparr>, hs'), ?g True)"
    using read_header_short_header_file [of True] by blast
  have a: "after_header sac_header is_file_name False False
             (\<lparr>dtype_order = Little, elems = hf_items (open_at_0 short_header_file)\<rparr>,
              \<lparr>dtype_order = Little, elems = hi_items (open_at_0 short_header_file)\<rparr>, hs) (?g False) =
           (Inl (SacIOError ''Cannot read all header values''),
            (?g False)\<lparr>closed := \<not> is_file_name\<rparr>)" for is_file_name
    using hs by (simp add: after_header_short)
  have a': "after_header sac_header is_file_name False False
             (\<lparr>dtype_order = Little, elems = hf_items (open_at_0 short_header_file)\<rparr>,
              \<lparr>dtype_order = Little, elems = hi_items (open_at_0 short_header_file)\<rparr>, hs') (?g True) =
           (Inl (SacIOError ''Cannot read all header values''),
            (?g True)\<lparr>closed := \<not> is_file_name\<rparr>)" for is_file_name
    using hs' by (simp add: after_header_short)
  have l: "length short_data_file = 636"
    by (simp add: short_data_file_def le_file_length)
  have n: "get_npts sac_header \<lparr>dtype_order = Little, elems = hi_items (open_at_0 short_data_file)\<rparr> = Inr 2"
    unfolding short_data_file_def using le_file_npts by (simp add: hi_items_prefix)
  have b: "after_header sac_header False False False
             (\<lparr>dtype_order = Little, elems = hf_items (open_at_0 short_data_file)\<rparr>,
              \<lparr>dtype_order = Little, elems = hi_items (open_at_0 short_data_file)\<rparr>,
              map S8 (hs_items (open_at_0 short_data_file)))
             \<lparr>content = short_data_file, pos = 632, closed = False, buffered = False\<rparr> =
           (Inl (SacIOError ''Cannot read all data points''),
            \<lparr>content = short_data_file, pos = 636, closed = True, buffered = False\<rparr>)"
    using after_header_short_data [where k = 1 and npts = 2 and HD = sac_header
        and f = "\<lparr>content = short_data_file, pos = 632, closed = False, buffered = False\<rparr>"
        and hf = "\<lparr>dtype_order = Little, elems = hf_items (open_at_0 short_data_file)\<rparr>"
        and hi = "\<lparr>dtype_order = Little, elems = hi_items (open_at_0 short_data_file)\<rparr>"
        and hs = "map S8 (hs_items (open_at_0 short_data_file))" and is_file_name = False] n l
    by (simp add: hf_items_def hi_items_def hs_items_def length_items_of)
  have o: "open_at_0 short_header_file = ?f False" by (simp add: open_at_0_def)
  have c1: "read_sac sac_header Little Map.empty (FileObj (open_at_0 short_header_file)) False None False =
     (Inl (SacIOError ''Cannot read all header values''),
      Some \<lparr>content = short_header_file, pos = 448, closed = True, buffered = False\<rparr>)"
    unfolding read_sac_fileobj io_bind_def
    unfolding read_header_eq [OF o] rh prod.case sum.case a by simp
  have c2: "read_sac sac_header Little (one_file ''a.sac'' short_header_file) (Path ''a.sac'') False None False =
     (Inl (SacIOError ''Cannot read all header values''),
      Some \<lparr>content = short_header_file, pos = 448, closed = False, buffered = True\<rparr>)"
    unfolding read_sac_path io_bind_def rh' prod.case sum.case a' by simp
  have c3: "read_sac sac_header Little Map.empty (FileObj (open_at_0 short_data_file)) False None False =
     (Inl (SacIOError ''Cannot read all data points''),
      Some \<lparr>content = short_data_file, pos = 636, closed = True, buffered = False\<rparr>)"
    unfolding read_sac_fileobj io_bind_def read_header_short_data_file prod.case sum.case b by simp
  show ?thesis using c1 c2 c3 by blast
qed

subsection \<open>validate_sac_content\<close>

lemma validate_single_test:
  "validate_sac_content HD ops hf hi hs data [''data_hdrs''] =
     test_data_hdrs HD ops (elems hf) (map_option elems data)"
  by (simp add: validate_sac_content_def ALL_TESTS_def sequence_def split: sum.splits)

lemma validate_reltime_only:
  "validate_sac_content HD ops hf hi hs data [''reltime''] = test_reltime HD (elems hi)"
  by (simp add: validate_sac_content_def ALL_TESTS_def sequence_def split: sum.splits)

text \<open>
  Claim C5. Let the header hold the fields \<open>depmin\<close>, \<open>depmax\<close> and \<open>depmen\<close>. With the
  single test \<open>data_hdrs\<close>, validate_sac_content raises ValueError when the data is None or
  empty; for other data it succeeds when the three fields equal the minimum, maximum and
  mean of the data, and raises SacInvalidContentError when one of them differs.
\<close>

theorem validate_data_hdrs:
  assumes "hdr_item (FLOATHDRS HD) (elems hf) ''depmin'' = Inr dmin"
    and "hdr_item (FLOATHDRS HD) (elems hf) ''depmax'' = Inr dmax"
    and "hdr_item (FLOATHDRS HD) (elems hf) ''depmen'' = Inr dmen"
  shows "validate_sac_content HD ops hf hi hs data [''data_hdrs''] =
     (case data of
        None \<Rightarrow> Inl (ValueError ''Data array is None, empty array, or non-array.'')
      | Some d \<Rightarrow>
          if elems d = [] then Inl (ValueError ''Data array is None, empty array, or non-array.'')
          else if f4_eq ops dmin (a_min ops (elems d)) \<and> f4_eq ops dmax (a_max ops (elems d)) \<and>
                  f4_eq ops dmen (a_mean ops (elems d))
          then Inr ()
          else Inl (SacInvalidContentError ''Data headers do not match data array.''))"
proof (cases data)
  case None
  then show ?thesis
    unfolding validate_single_test
    using assms by (simp add: test_data_hdrs_def data_hdrs_body_def is_equal_def reduce_def)
next
  case (Some d)
  then show ?thesis
    unfolding validate_single_test
    using assms by (simp add: test_data_hdrs_def data_hdrs_body_def is_equal_def reduce_def)
qed

theorem validate_data_hdrs_witness:
  "validate_sac_content (sac_tables (- 12345)) exact_ops
     \<lparr>dtype_order = Little, elems = (replicate 70 (- 12345))[1 := 1, 2 := 3, 56 := 2]\<rparr> \<lparr>dtype_order = Little, elems = []\<rparr> []
     (Some \<lparr>dtype_order = Little, elems = [2, 1, 3]\<rparr>) [''data_hdrs''] = Inr ()
   \<and> validate_sac_content (sac_tables (- 12345)) exact_ops
     \<lparr>dtype_order = Little, elems = (replicate 70 (- 12345))[1 := 1, 2 := 3, 56 := 2]\<rparr> \<lparr>dtype_order = Little, elems = []\<rparr> []
     (Some \<lparr>dtype_order = Little, elems = [2, 1, 4]\<rparr>) [''data_hdrs''] =
       Inl (SacInvalidContentError ''Data headers do not match data array.'')
   \<and> validate_sac_content (sac_tables (- 12345)) exact_ops
     \<lparr>dtype_order = Little, elems = (replicate 70 (- 12345))[1 := 1, 2 := 3, 56 := 2]\<rparr> \<lparr>dtype_order = Little, elems = []\<rparr> []
     None [''data_hdrs''] = Inl (ValueError ''Data array is None, empty array, or non-array.'')"
proof -
  let ?HD = "sac_tables (- 12345 :: rat)"
  let ?hf = "\<lparr>dtype_order = Little, elems = (replicate 70 (- 12345 :: rat))[1 := 1, 2 := 3, 56 := 2]\<rparr>"
  have i1: "index_of (FLOATHDRS ?HD) ''depmin'' = Some 1"
    and i2: "index_of (FLOATHDRS ?HD) ''depmax'' = Some 2"
    and i3: "index_of (FLOATHDRS ?HD) ''depmen'' = Some 56"
    by (simp_all add: sac_tables_def)
  have a: "hdr_item (FLOATHDRS ?HD) (elems ?hf) ''depmin'' = Inr 1"
    by (simp add: hdr_item_def i1)
  have b: "hdr_item (FLOATHDRS ?HD) (elems ?hf) ''depmax'' = Inr 3"
    by (simp add: hdr_item_def i2)
  have c: "hdr_item (FLOATHDRS ?HD) (elems ?hf) ''depmen'' = Inr 2"
    by (simp add: hdr_item_def i3)
  show ?thesis
    using validate_data_hdrs [OF a b c, of exact_ops "\<lparr>dtype_order = Little, elems = []\<rparr>" "[]" "Some \<lparr>dtype_order = Little, elems = [2, 1, 3]\<rparr>"]
      validate_data_hdrs [OF a b c, of exact_ops "\<lparr>dtype_order = Little, elems = []\<rparr>" "[]" "Some \<lparr>dtype_order = Little, elems = [2, 1, 4]\<rparr>"]
      validate_data_hdrs [OF a b c, of exact_ops "\<lparr>dtype_order = Little, elems = []\<rparr>" "[]" None]
    by (simp add: exact_ops_def)
qed

lemma sac_iztype: "index_of (INTHDRS (sac_tables fnull)) ''iztype'' = Some 17"
  by (simp add: sac_tables_def)

lemma sac_b: "index_of (FLOATHDRS (sac_tables fnull)) ''b'' = Some 5"
  by (simp add: sac_tables_def)

lemma sac_accepted:
  "map_of (ACCEPTED_VALS (sac_tables fnull)) ''iztype'' =
     Some [5, 9, 10, 11, 12, 13, 14, 15, 16, 17, 18, 19, 20, 21, 22]"
  by (simp add: sac_tables_def)

lemma sac_inull: "INULL (sac_tables fnull) = - 12345"
  by (simp add: sac_tables_def)

text \<open>
  Claim C3, evaluated where the code departs from it. With the single test \<open>reltime\<close>
  and the reference-time type 9 (the begin time \<open>b\<close>), the outcome does not depend on the
  float header at all: the test reads position 5 of the int header (\<open>nzmsec\<close>), so it
  passes when that is set, whatever \<open>b\<close> is, and fails when that is null. With the type 12
  the test raises NameError.
\<close>

theorem validate_reltime_reads_int_header:
  "validate_sac_content (sac_tables fnull) ops hf
     \<lparr>dtype_order = bo, elems = (replicate 40 (- 12345))[17 := 9, 5 := 0]\<rparr> hs data [''reltime''] = Inr ()
   \<and> validate_sac_content (sac_tables fnull) ops hf
     \<lparr>dtype_order = bo, elems = (replicate 40 (- 12345))[17 := 9]\<rparr> hs data [''reltime''] =
       Inl (SacInvalidContentError ''Reference header for iztype not set.'')
   \<and> validate_sac_content (sac_tables fnull) ops hf
     \<lparr>dtype_order = bo, elems = (replicate 40 (- 12345))[17 := 12]\<rparr> hs data [''reltime''] =
       Inl (NameError ''val'')"
  unfolding validate_reltime_only
  by (simp add: test_reltime_def hdr_item_def sac_iztype sac_b sac_accepted sac_inull
      is_valid_enum_int_def)


subsection \<open>write_sac_ascii and read_sac_ascii\<close>

lemma reshape_exact: "length a = k * n \<Longrightarrow> reshape a (int k) n = Inr (items_of n a k)"
  by (simp add: reshape_def)

lemma write_headers_ok:
  assumes "length hf = 70" and "length hi = 40" and "length hs = 24" and "\<not> wclosed f"
  shows "write_headers tx is_file_name hf hi hs f =
           (Inr (), f\<lparr>written := written f @ header_text tx hf hi hs\<rparr>)"
proof -
  have a: "reshape hf 14 5 = Inr (items_of 5 hf 14)"
    using reshape_exact [of hf 14 5] assms by simp
  have b: "reshape hi 8 5 = Inr (items_of 5 hi 8)"
    using reshape_exact [of hi 8 5] assms by simp
  have c: "reshape hs 8 3 = Inr (items_of 3 hs 8)"
    using reshape_exact [of hs 8 3] assms by simp
  show ?thesis
    using assms(4)
    by (simp add: write_headers_def io_catch_def io_bind_def io_lift_def a b c savetxt_2d_def
        w_lines_def header_text_def)
qed

lemma length_header_text: "length (header_text tx hf hi hs) = 30"
  by (simp add: header_text_def length_items_of)

text \<open>
  Claim C8, evaluated where the code departs from it. For \<open>npts = 7\<close> and seven data
  values, write_sac_ascii writes the thirty header lines, one line with the first five
  values, and then two more lines, one for each remaining value, in numpy's default
  format: the remainder is not written as one tab-delimited line.
\<close>

theorem write_sac_ascii_remainder_lines:
  "write_sac_ascii_stream (sac_tables fnull) tx False
     \<lparr>dtype_order = bo, elems = replicate 70 x\<rparr>
     \<lparr>dtype_order = bo, elems = (replicate 40 n)[9 := 7]\<rparr>
     (replicate 24 s)
     (Some \<lparr>dtype_order = bo, elems = [d1, d2, d3, d4, d5, d6, d7]\<rparr>)
     \<lparr>written = [], wclosed = False\<rparr> =
   (Inr (),
    \<lparr>written = header_text tx (replicate 70 x) ((replicate 40 n)[9 := 7]) (replicate 24 s) @
                [join [] (map (fmt_g15 tx) [d1, d2, d3, d4, d5]), fmt_e18 tx d6, fmt_e18 tx d7],
       wclosed = False\<rparr>)"
proof -
  let ?f0 = "\<lparr>written = [], wclosed = False\<rparr>"
  let ?hi = "(replicate 40 n)[9 := 7]"
  let ?h = "header_text tx (replicate 70 x) ?hi (replicate 24 s)"
  have h: "write_headers tx False (replicate 70 x) ?hi (replicate 24 s) ?f0 =
             (Inr (), \<lparr>written = ?h, wclosed = False\<rparr>)"
    using write_headers_ok [of "replicate 70 x" ?hi "replicate 24 s" ?f0 tx False] by simp
  have r: "reshape [d1, d2, d3, d4, d5] 1 5 = Inr [[d1, d2, d3, d4, d5]]"
    using reshape_exact [of "[d1, d2, d3, d4, d5]" 1 5] by simp
  have d: "write_data tx 7 [d1, d2, d3, d4, d5, d6, d7] \<lparr>written = ?h, wclosed = False\<rparr> =
     (Inr (), \<lparr>written = ?h @ [join [] (map (fmt_g15 tx) [d1, d2, d3, d4, d5]), fmt_e18 tx d6, fmt_e18 tx d7],
               wclosed = False\<rparr>)"
    by (simp add: write_data_def io_catch_def io_bind_def io_lift_def slice_to_def slice_from_def
        slice_index_def r savetxt_2d_def savetxt_1d_def w_lines_def join_def)
  show ?thesis
    by (simp add: write_sac_ascii_stream_def io_bind_def h d io_return_def sac_tables_def)
qed


lemma returns_only_bind:
  "(\<And>x. returns_only P (k x)) \<Longrightarrow> returns_only P (io_bind m k)"
  unfolding returns_only_def io_bind_def
  by (auto split: prod.splits sum.splits)

lemma returns_only_raise: "returns_only P (io_raise e)"
  by (simp add: returns_only_def io_raise_def)

lemma returns_only_return: "P x \<Longrightarrow> returns_only P (io_return x)"
  by (simp add: returns_only_def io_return_def)

lemma returns_only_if:
  "(c \<Longrightarrow> returns_only P m) \<Longrightarrow> (\<not> c \<Longrightarrow> returns_only P m') \<Longrightarrow>
   returns_only P (if c then m else m')"
  by simp

lemma read_sac_ascii_stream_little:
  "returns_only (little_arrays headonly)
     (read_sac_ascii_stream HD tx native is_file_name has_name headonly)"
proof -
  have tail: "returns_only (little_arrays headonly)
     (case arrays of
         [HS hs0] \<Rightarrow> k hs0
       | _ \<Rightarrow> io_raise (ValueError ''not enough values to unpack''))"
    if "\<And>hs0. returns_only (little_arrays headonly) (k hs0)" for arrays :: "'a harray list" and k
    using that by (auto simp: returns_only_raise split: list.splits harray.splits)
  show ?thesis
    unfolding read_sac_ascii_stream_def Let_def
    by (intro returns_only_bind returns_only_if returns_only_raise tail returns_only_return)
       (simp_all add: little_arrays_def)
qed

text \<open>
  Claim C10. Whenever read_sac_ascii returns, the float and the int header array it returns
  have the little-endian dtype, on a platform of either byte order; it returns a data array
  exactly when \<open>headonly\<close> is false, and that array has the little-endian dtype too.
\<close>

theorem read_sac_ascii_little_endian:
  assumes "read_sac_ascii HD tx native fs has_name src headonly = (Inr (hf, hi, hs, data), f')"
  shows "dtype_order hf = Little \<and> dtype_order hi = Little \<and>
         (case data of None \<Rightarrow> headonly | Some d \<Rightarrow> \<not> headonly \<and> dtype_order d = Little)"
proof -
  obtain is_fn hn f0 f1 where
    "read_sac_ascii_stream HD tx native is_fn hn headonly f0 = (Inr (hf, hi, hs, data), f1)"
    using assms unfolding read_sac_ascii_def
    by (auto split: source.splits option.splits prod.splits)
  then have "little_arrays headonly (hf, hi, hs, data)"
    using read_sac_ascii_stream_little unfolding returns_only_def by blast
  then show ?thesis by (simp add: little_arrays_def)
qed

lemma w0: "splitlines ascii_file = ascii_lines"
  by code_simp

lemma w1: "np_array_ravel (parse_f4 digit_parse) (map split (take 14 ascii_lines)) = Inr (replicate 70 0)"
  by code_simp

lemma w2: "np_array_ravel (parse_i4 digit_parse) (map split (take 8 (drop 14 ascii_lines))) = Inr ((replicate 40 0)[9 := 2])"
  by code_simp

lemma w3: "np_array_ravel (parse_f4 digit_parse) (map split (drop 30 ascii_lines)) = Inr [1, 2]"
  by code_simp

lemma w4: "fill_strings ascii_lines [0..<8] (replicate 24 ''-12345  '') = Inr (replicate 24 ''-12345  '')"
  by code_simp

lemma w5: "init_header_arrays (sac_tables fnull) native [''str''] ''='' = Inr [HS (replicate 24 ''-12345  '')]"
  by (simp add: init_array_def sac_tables_def S8_def rstrip_nul_def)

lemma sac_npts: "index_of (INTHDRS (sac_tables fnull)) ''npts'' = Some 9"
  by (simp add: sac_tables_def)

lemma w6: "hdr_item (INTHDRS (sac_tables fnull)) ((replicate 40 0)[9 := 2]) ''npts'' = Inr (2::int)"
  by (simp add: hdr_item_def sac_npts)

lemma w7: "length ascii_lines = 31"
  by (simp add: ascii_lines_def)

lemma read_sac_ascii_example:
  "read_sac_ascii (sac_tables (- 12345)) digit_parse Big Map.empty False
     (FileObj (open_at_0 ascii_file)) False =
   (Inr (\<lparr>dtype_order = Little, elems = replicate 70 0\<rparr>,
         \<lparr>dtype_order = Little, elems = (replicate 40 0)[9 := 2]\<rparr>,
         replicate 24 ''-12345  '',
         Some \<lparr>dtype_order = Little, elems = [1, 2]\<rparr>),
    Some \<lparr>content = ascii_file, pos = length ascii_file, closed = False, buffered = False\<rparr>)"
  by (simp add: read_sac_ascii_def read_sac_ascii_stream_def io_bind_def io_lift_def io_return_def
      f_read_def open_at_0_def Let_def w0 w1 w2 w3 w4 w5 w6 w7 del: init_header_arrays.simps)

theorem read_sac_ascii_little_endian_witness:
  "read_sac_ascii (sac_tables (- 12345)) digit_parse Big Map.empty False
     (FileObj (open_at_0 ascii_file)) False =
   (Inr (\<lparr>dtype_order = Little, elems = replicate 70 0\<rparr>,
         \<lparr>dtype_order = Little, elems = (replicate 40 0)[9 := 2]\<rparr>,
         replicate 24 ''-12345  '',
         Some \<lparr>dtype_order = Little, elems = [1, 2]\<rparr>),
    Some \<lparr>content = ascii_file, pos = length ascii_file, closed = False, buffered = False\<rparr>)
   \<and> dtype_order \<lparr>dtype_order = Little, elems = replicate 70 (0::rat)\<rparr> = Little
   \<and> dtype_order \<lparr>dtype_order = Little, elems = (replicate 40 (0::int))[9 := 2]\<rparr> = Little
   \<and> dtype_order \<lparr>dtype_order = Little, elems = [1, 2 :: rat]\<rparr> = Little"
  using read_sac_ascii_little_endian [OF read_sac_ascii_example] read_sac_ascii_example
  by simp


subsection \<open>dict_to_header_arrays and header_arrays_to_dict\<close>

lemma index_of_mem: "x \<in> set xs \<Longrightarrow> \<exists>k. index_of xs x = Some k"
  using index_of_None_iff [of xs x] by (cases "index_of xs x") auto

lemma index_of_nth_distinct:
  "distinct xs \<Longrightarrow> i < length xs \<Longrightarrow> index_of xs (xs ! i) = Some i"
proof -
  assume d: "distinct xs" and i: "i < length xs"
  obtain k where k: "index_of xs (xs ! i) = Some k"
    using index_of_mem [of "xs ! i" xs] i by auto
  have "k < length xs" "xs ! k = xs ! i"
    using index_of_Some_less [OF k] index_of_Some_nth [OF k] by auto
  then have "k = i" using d i by (simp add: nth_eq_iff_index_eq)
  then show ?thesis using k by simp
qed

lemma wf_distinct:
  assumes "wf_tables HD"
  shows "distinct (FLOATHDRS HD)" "distinct (INTHDRS HD)" "distinct (STRHDRS HD)"
    "set (FLOATHDRS HD) \<inter> set (INTHDRS HD) = {}"
    "set (FLOATHDRS HD) \<inter> set (STRHDRS HD) = {}"
    "set (INTHDRS HD) \<inter> set (STRHDRS HD) = {}"
proof -
  have d: "distinct (FLOATHDRS HD @ INTHDRS HD @ STRHDRS HD)"
    using assms unfolding wf_tables_def header_names_def by blast
  show "distinct (FLOATHDRS HD)" "distinct (INTHDRS HD)" "distinct (STRHDRS HD)"
    using d by simp_all
  show "set (FLOATHDRS HD) \<inter> set (INTHDRS HD) = {}"
    "set (FLOATHDRS HD) \<inter> set (STRHDRS HD) = {}"
    "set (INTHDRS HD) \<inter> set (STRHDRS HD) = {}"
    using d by auto
qed

lemma wf_lengths:
  assumes "wf_tables HD"
  shows "length (FLOATHDRS HD) = 70" "length (INTHDRS HD) = 40" "length (STRHDRS HD) = 24"
  using assms unfolding wf_tables_def by blast+

lemma wf_kevnm:
  assumes "wf_tables HD"
  shows "STRHDRS HD ! 1 = ''kevnm''" "STRHDRS HD ! 2 = ''kevnm2''"
    "''kevnm'' \<in> set (STRHDRS HD)" "''kevnm2'' \<in> set (STRHDRS HD)"
    "''kevnm'' \<notin> set (FLOATHDRS HD)" "''kevnm'' \<notin> set (INTHDRS HD)"
    "''kevnm2'' \<notin> set (FLOATHDRS HD)" "''kevnm2'' \<notin> set (INTHDRS HD)"
    "index_of (STRHDRS HD) ''kevnm'' = Some 1" "index_of (STRHDRS HD) ''kevnm2'' = Some 2"
proof -
  show a: "STRHDRS HD ! 1 = ''kevnm''" and b: "STRHDRS HD ! 2 = ''kevnm2''"
    using assms unfolding wf_tables_def by blast+
  have l: "length (STRHDRS HD) = 24" using assms unfolding wf_tables_def by blast
  show c: "''kevnm'' \<in> set (STRHDRS HD)"
  proof -
    have "1 < length (STRHDRS HD)" using l by simp
    then have "STRHDRS HD ! 1 \<in> set (STRHDRS HD)" by (rule nth_mem)
    then show ?thesis using a by simp
  qed
  show d: "''kevnm2'' \<in> set (STRHDRS HD)"
  proof -
    have "2 < length (STRHDRS HD)" using l by simp
    then have "STRHDRS HD ! 2 \<in> set (STRHDRS HD)" by (rule nth_mem)
    then show ?thesis using b by simp
  qed
  show "''kevnm'' \<notin> set (FLOATHDRS HD)" "''kevnm'' \<notin> set (INTHDRS HD)"
    "''kevnm2'' \<notin> set (FLOATHDRS HD)" "''kevnm2'' \<notin> set (INTHDRS HD)"
    using wf_distinct(5,6) [OF assms] c d by blast+
  show "index_of (STRHDRS HD) ''kevnm'' = Some 1"
    using index_of_nth_distinct [OF wf_distinct(3) [OF assms], of 1] a l by simp
  show "index_of (STRHDRS HD) ''kevnm2'' = Some 2"
    using index_of_nth_distinct [OF wf_distinct(3) [OF assms], of 2] b l by simp
qed

lemma float_slots_Nil: "float_slots HD [] xs = xs"
  by (simp add: float_slots_def map_nth)

lemma int_slots_Nil: "int_slots HD [] xs = xs"
  by (simp add: int_slots_def map_nth)

lemma str_slots_Nil: "str_slots HD [] xs = xs"
  unfolding str_slots_def by (rule nth_equalityI) (simp_all add: numeral_2_eq_2)

lemma length_float_slots: "length (float_slots HD h xs) = length xs"
  by (simp add: float_slots_def)

lemma length_int_slots: "length (int_slots HD h xs) = length xs"
  by (simp add: int_slots_def)

lemma length_str_slots: "length (str_slots HD h xs) = length xs"
  by (simp add: str_slots_def)

lemma float_slots_other:
  assumes "k \<notin> set (FLOATHDRS HD)" and "length xs \<le> length (FLOATHDRS HD)"
  shows "float_slots HD ((k, v) # rest) xs = float_slots HD rest xs"
proof -
  have "FLOATHDRS HD ! i \<noteq> k" if "i < length xs" for i
    using that assms nth_mem [of i "FLOATHDRS HD"] by auto
  then show ?thesis by (simp add: float_slots_def)
qed

lemma int_slots_other:
  assumes "k \<notin> set (INTHDRS HD)" and "length xs \<le> length (INTHDRS HD)"
  shows "int_slots HD ((k, v) # rest) xs = int_slots HD rest xs"
proof -
  have "INTHDRS HD ! i \<noteq> k" if "i < length xs" for i
    using that assms nth_mem [of i "INTHDRS HD"] by auto
  then show ?thesis by (simp add: int_slots_def)
qed

lemma str_slots_other:
  assumes "k \<notin> set (STRHDRS HD)" and "k \<noteq> ''kevnm''" and "length xs \<le> length (STRHDRS HD)"
  shows "str_slots HD ((k, v) # rest) xs = str_slots HD rest xs"
proof -
  have "STRHDRS HD ! i \<noteq> k" if "i < length xs" for i
    using that assms nth_mem [of i "STRHDRS HD"] by auto
  then show ?thesis using assms(2) by (simp add: str_slots_def)
qed

lemma float_slots_self:
  assumes "distinct (FLOATHDRS HD)" and "index_of (FLOATHDRS HD) k = Some i0"
    and "length xs = length (FLOATHDRS HD)" and "k \<notin> fst ` set rest"
  shows "float_slots HD ((k, HFloat x) # rest) xs = float_slots HD rest (xs[i0 := x])"
proof -
  have i0: "i0 < length xs" "FLOATHDRS HD ! i0 = k"
    using index_of_Some_less [OF assms(2)] index_of_Some_nth [OF assms(2)] assms(3) by auto
  have none: "map_of rest k = None"
    using assms(4) by (simp add: map_of_eq_None_iff)
  have other: "FLOATHDRS HD ! i \<noteq> k" if "i < length xs" "i \<noteq> i0" for i
    using that i0 assms(1,3) by (auto simp: nth_eq_iff_index_eq)
  show ?thesis
    unfolding float_slots_def
    by (rule nth_equalityI) (use i0 none other in \<open>auto simp: nth_list_update\<close>)
qed

lemma int_slots_self:
  assumes "distinct (INTHDRS HD)" and "index_of (INTHDRS HD) k = Some i0"
    and "length xs = length (INTHDRS HD)" and "k \<notin> fst ` set rest"
  shows "int_slots HD ((k, HInt n) # rest) xs = int_slots HD rest (xs[i0 := n])"
proof -
  have i0: "i0 < length xs" "INTHDRS HD ! i0 = k"
    using index_of_Some_less [OF assms(2)] index_of_Some_nth [OF assms(2)] assms(3) by auto
  have none: "map_of rest k = None"
    using assms(4) by (simp add: map_of_eq_None_iff)
  have other: "INTHDRS HD ! i \<noteq> k" if "i < length xs" "i \<noteq> i0" for i
    using that i0 assms(1,3) by (auto simp: nth_eq_iff_index_eq)
  show ?thesis
    unfolding int_slots_def
    by (rule nth_equalityI) (use i0 none other in \<open>auto simp: nth_list_update\<close>)
qed

lemma str_slots_self:
  assumes wf: "wf_tables HD" and "index_of (STRHDRS HD) k = Some i0"
    and "k \<noteq> ''kevnm''" and "k \<noteq> ''kevnm2''"
    and "length xs = length (STRHDRS HD)" and "k \<notin> fst ` set rest"
  shows "str_slots HD ((k, HStr s) # rest) xs = str_slots HD rest (xs[i0 := S8 s])"
proof -
  have i0: "i0 < length xs" "STRHDRS HD ! i0 = k"
    using index_of_Some_less [OF assms(2)] index_of_Some_nth [OF assms(2)] assms(5) by auto
  have i12: "i0 \<noteq> 1" "i0 \<noteq> 2"
    using i0(2) wf_kevnm(1,2) [OF wf] assms(3,4) by auto
  have none: "map_of rest k = None"
    using assms(6) by (simp add: map_of_eq_None_iff)
  have other: "STRHDRS HD ! i \<noteq> k" if "i < length xs" "i \<noteq> i0" for i
    using that i0 wf_distinct(3) [OF wf] assms(5) by (auto simp: nth_eq_iff_index_eq)
  show ?thesis
    unfolding str_slots_def
  proof (rule nth_equalityI)
    fix i
    assume "i < length (map (\<lambda>i. if i = 1 then str_or (\<lambda>s. S8 (first_half s))
                (map_of ((k, HStr s) # rest) ''kevnm'') (xs ! i)
              else if i = 2 then str_or (\<lambda>s. S8 (second_half s))
                (map_of ((k, HStr s) # rest) ''kevnm'') (xs ! i)
              else str_or S8 (map_of ((k, HStr s) # rest) (STRHDRS HD ! i)) (xs ! i))
       [0..<length xs])"
    then have i: "i < length xs" by simp
    consider "i = 1" | "i = 2" | "i = i0" | "i \<noteq> 1" "i \<noteq> 2" "i \<noteq> i0" by blast
    then show "map (\<lambda>i. if i = 1 then str_or (\<lambda>s. S8 (first_half s))
                (map_of ((k, HStr s) # rest) ''kevnm'') (xs ! i)
              else if i = 2 then str_or (\<lambda>s. S8 (second_half s))
                (map_of ((k, HStr s) # rest) ''kevnm'') (xs ! i)
              else str_or S8 (map_of ((k, HStr s) # rest) (STRHDRS HD ! i)) (xs ! i))
       [0..<length xs] ! i =
      map (\<lambda>i. if i = 1 then str_or (\<lambda>s. S8 (first_half s)) (map_of rest ''kevnm'') (xs[i0 := S8 s] ! i)
              else if i = 2 then str_or (\<lambda>s. S8 (second_half s)) (map_of rest ''kevnm'') (xs[i0 := S8 s] ! i)
              else str_or S8 (map_of rest (STRHDRS HD ! i)) (xs[i0 := S8 s] ! i))
       [0..<length (xs[i0 := S8 s])] ! i"
    proof cases
      case 1
      then show ?thesis using i i12 assms(3) by simp
    next
      case 2
      then show ?thesis using i i12 assms(3) by (simp add: numeral_2_eq_2)
    next
      case 3
      then show ?thesis using i i0 i12 none by simp
    next
      case 4
      then show ?thesis using i other [of i] by simp
    qed
  qed simp
qed

lemma str_slots_kevnm:
  assumes wf: "wf_tables HD" and "length xs = length (STRHDRS HD)"
    and "''kevnm'' \<notin> fst ` set rest"
  shows "str_slots HD ((''kevnm'', HStr s) # rest) xs =
         str_slots HD rest (xs[1 := S8 (first_half s), 2 := S8 (second_half s)])"
proof -
  have l: "length xs = 24" using assms(2) wf_lengths(3) [OF wf] by simp
  have none: "map_of rest ''kevnm'' = None"
    using assms(3) by (simp add: map_of_eq_None_iff)
  have other: "STRHDRS HD ! i \<noteq> ''kevnm''" if "i < length xs" "i \<noteq> 1" for i
  proof -
    have "(STRHDRS HD ! i = STRHDRS HD ! 1) = (i = 1)"
      by (rule nth_eq_iff_index_eq) (use that wf_distinct(3) [OF wf] assms(2) l in simp_all)
    then show ?thesis using that(2) wf_kevnm(1) [OF wf] by simp
  qed
  show ?thesis
    unfolding str_slots_def
  proof (rule nth_equalityI)
    fix i
    assume "i < length (map (\<lambda>i. if i = 1 then str_or (\<lambda>s. S8 (first_half s))
                (map_of ((''kevnm'', HStr s) # rest) ''kevnm'') (xs ! i)
              else if i = 2 then str_or (\<lambda>s. S8 (second_half s))
                (map_of ((''kevnm'', HStr s) # rest) ''kevnm'') (xs ! i)
              else str_or S8 (map_of ((''kevnm'', HStr s) # rest) (STRHDRS HD ! i)) (xs ! i))
       [0..<length xs])"
    then have i: "i < length xs" by simp
    consider "i = 1" | "i = 2" | "i \<noteq> 1" "i \<noteq> 2" by blast
    then show "map (\<lambda>i. if i = 1 then str_or (\<lambda>s. S8 (first_half s))
                (map_of ((''kevnm'', HStr s) # rest) ''kevnm'') (xs ! i)
              else if i = 2 then str_or (\<lambda>s. S8 (second_half s))
                (map_of ((''kevnm'', HStr s) # rest) ''kevnm'') (xs ! i)
              else str_or S8 (map_of ((''kevnm'', HStr s) # rest) (STRHDRS HD ! i)) (xs ! i))
       [0..<length xs] ! i =
      map (\<lambda>i. if i = 1 then str_or (\<lambda>s. S8 (first_half s)) (map_of rest ''kevnm'')
                (xs[1 := S8 (first_half s), 2 := S8 (second_half s)] ! i)
              else if i = 2 then str_or (\<lambda>s. S8 (second_half s)) (map_of rest ''kevnm'')
                (xs[1 := S8 (first_half s), 2 := S8 (second_half s)] ! i)
              else str_or S8 (map_of rest (STRHDRS HD ! i))
                (xs[1 := S8 (first_half s), 2 := S8 (second_half s)] ! i))
       [0..<length (xs[1 := S8 (first_half s), 2 := S8 (second_half s)])] ! i"
    proof cases
      case 1
      then show ?thesis using i l none by simp
    next
      case 2
      then show ?thesis using i l none by (simp add: numeral_2_eq_2)
    next
      case 3
      then show ?thesis using i other [of i] by simp
    qed
  qed simp
qed

lemma set_headers_float_step:
  "k \<in> set (FLOATHDRS HD) \<Longrightarrow> index_of (FLOATHDRS HD) k = Some i0 \<Longrightarrow> i0 < length (elems hf) \<Longrightarrow>
   set_headers HD np ((k, HFloat x) # rest) (hf, hi, hs) =
   set_headers HD np rest (hf\<lparr>elems := (elems hf)[i0 := x]\<rparr>, hi, hs)"
  by (simp add: store_f4_def)

lemma set_headers_int_step:
  "k \<notin> set (FLOATHDRS HD) \<Longrightarrow> k \<in> set (INTHDRS HD) \<Longrightarrow> index_of (INTHDRS HD) k = Some i0 \<Longrightarrow>
   i0 < length (elems hi) \<Longrightarrow> - (2 ^ 31) \<le> n \<Longrightarrow> n < 2 ^ 31 \<Longrightarrow>
   set_headers HD np ((k, HInt n) # rest) (hf, hi, hs) =
   set_headers HD np rest (hf, hi\<lparr>elems := (elems hi)[i0 := n]\<rparr>, hs)"
  by (simp add: store_i4_def)

lemma set_headers_str_step:
  "k \<notin> set (FLOATHDRS HD) \<Longrightarrow> k \<notin> set (INTHDRS HD) \<Longrightarrow> k \<in> set (STRHDRS HD) \<Longrightarrow>
   k \<noteq> ''kevnm'' \<Longrightarrow> index_of (STRHDRS HD) k = Some i0 \<Longrightarrow> i0 < length hs \<Longrightarrow> is_ascii s \<Longrightarrow>
   set_headers HD np ((k, HStr s) # rest) (hf, hi, hs) =
   set_headers HD np rest (hf, hi, hs[i0 := S8 s])"
  by (simp add: store_S8_def)

lemma set_headers_kevnm_step:
  "''kevnm'' \<notin> set (FLOATHDRS HD) \<Longrightarrow> ''kevnm'' \<notin> set (INTHDRS HD) \<Longrightarrow>
   ''kevnm'' \<in> set (STRHDRS HD) \<Longrightarrow> 2 < length hs \<Longrightarrow>
   is_ascii (first_half s) \<Longrightarrow> is_ascii (second_half s) \<Longrightarrow>
   set_headers HD np ((''kevnm'', HStr s) # rest) (hf, hi, hs) =
   set_headers HD np rest (hf, hi, hs[1 := S8 (first_half s), 2 := S8 (second_half s)])"
  by (simp add: first_half_def second_half_def Let_def)

lemma set_headers_fits:
  assumes wf: "wf_tables HD"
  shows "distinct (map fst h) \<Longrightarrow> set (map fst h) \<subseteq> set (header_names HD) \<Longrightarrow>
    ''kevnm2'' \<notin> set (map fst h) \<Longrightarrow> list_all (\<lambda>(k, v). fits HD k v) h \<Longrightarrow>
    length (elems hf0) = 70 \<Longrightarrow> length (elems hi0) = 40 \<Longrightarrow> length hs0 = 24 \<Longrightarrow>
    set_headers HD np h (hf0, hi0, hs0) =
      Inr (hf0\<lparr>elems := float_slots HD h (elems hf0)\<rparr>,
           hi0\<lparr>elems := int_slots HD h (elems hi0)\<rparr>,
           str_slots HD h hs0)"
proof (induction h arbitrary: hf0 hi0 hs0)
  case Nil
  show ?case by (simp add: float_slots_Nil int_slots_Nil str_slots_Nil)
next
  case (Cons kv rest)
  obtain k v where kv: "kv = (k, v)" by (cases kv) auto
  note len = wf_lengths [OF wf]
  note dis = wf_distinct [OF wf]
  have fresh: "k \<notin> fst ` set rest" and drest: "distinct (map fst rest)"
    using Cons.prems(1) kv by auto
  have sub: "set (map fst rest) \<subseteq> set (header_names HD)" and k2: "''kevnm2'' \<notin> set (map fst rest)"
    and k2': "k \<noteq> ''kevnm2''" and fitsr: "list_all (\<lambda>(k, v). fits HD k v) rest"
    and fitk: "fits HD k v"
    using Cons.prems(2-4) kv by auto
  have kin: "k \<in> set (FLOATHDRS HD) \<or> k \<in> set (INTHDRS HD) \<or> k \<in> set (STRHDRS HD)"
    using Cons.prems(2) kv by (auto simp: header_names_def)
  note IH = Cons.IH [OF drest sub k2 fitsr]
  consider (F) "k \<in> set (FLOATHDRS HD)"
    | (I) "k \<notin> set (FLOATHDRS HD)" "k \<in> set (INTHDRS HD)"
    | (N) "k = ''kevnm''"
    | (S) "k \<notin> set (FLOATHDRS HD)" "k \<notin> set (INTHDRS HD)" "k \<in> set (STRHDRS HD)" "k \<noteq> ''kevnm''"
    using kin by blast
  then show ?case
  proof cases
    case F
    then obtain x where v: "v = HFloat x"
      using fitk by (auto simp: fits_def split: hval.splits)
    obtain i0 where i0: "index_of (FLOATHDRS HD) k = Some i0"
      using index_of_mem [OF F] by blast
    have i0l: "i0 < length (elems hf0)"
      using index_of_Some_less [OF i0] len Cons.prems(5) by simp
    have kI: "k \<notin> set (INTHDRS HD)" and kS: "k \<notin> set (STRHDRS HD)"
      using F dis(4,5) by auto
    have kN: "k \<noteq> ''kevnm''" using F wf_kevnm(5) [OF wf] by auto
    have "set_headers HD np (kv # rest) (hf0, hi0, hs0) =
          set_headers HD np rest (hf0\<lparr>elems := (elems hf0)[i0 := x]\<rparr>, hi0, hs0)"
      unfolding kv v by (rule set_headers_float_step [OF F i0 i0l])
    also have "\<dots> = Inr (hf0\<lparr>elems := float_slots HD rest ((elems hf0)[i0 := x])\<rparr>,
           hi0\<lparr>elems := int_slots HD rest (elems hi0)\<rparr>, str_slots HD rest hs0)"
      using IH [of "hf0\<lparr>elems := (elems hf0)[i0 := x]\<rparr>" hi0 hs0] Cons.prems(5-7) by simp
    also have "float_slots HD rest ((elems hf0)[i0 := x]) = float_slots HD (kv # rest) (elems hf0)"
      unfolding kv v
      by (rule float_slots_self [symmetric, OF dis(1) i0 _ fresh]) (simp add: len Cons.prems(5))
    also have "int_slots HD rest (elems hi0) = int_slots HD (kv # rest) (elems hi0)"
      unfolding kv by (rule int_slots_other [symmetric, OF kI]) (simp add: len Cons.prems(6))
    also have "str_slots HD rest hs0 = str_slots HD (kv # rest) hs0"
      unfolding kv by (rule str_slots_other [symmetric, OF kS kN]) (simp add: len Cons.prems(7))
    finally show ?thesis .
  next
    case I
    then obtain n where v: "v = HInt n" and n: "- (2 ^ 31) \<le> n" "n < 2 ^ 31"
      using fitk by (auto simp: fits_def split: hval.splits)
    obtain i0 where i0: "index_of (INTHDRS HD) k = Some i0"
      using index_of_mem [OF I(2)] by blast
    have i0l: "i0 < length (elems hi0)"
      using index_of_Some_less [OF i0] len Cons.prems(6) by simp
    have kS: "k \<notin> set (STRHDRS HD)"
      using I dis(6) by auto
    have kN: "k \<noteq> ''kevnm''" using I wf_kevnm(6) [OF wf] by auto
    have "set_headers HD np (kv # rest) (hf0, hi0, hs0) =
          set_headers HD np rest (hf0, hi0\<lparr>elems := (elems hi0)[i0 := n]\<rparr>, hs0)"
      unfolding kv v by (rule set_headers_int_step [OF I i0 i0l n])
    also have "\<dots> = Inr (hf0\<lparr>elems := float_slots HD rest (elems hf0)\<rparr>,
           hi0\<lparr>elems := int_slots HD rest ((elems hi0)[i0 := n])\<rparr>, str_slots HD rest hs0)"
      using IH [of hf0 "hi0\<lparr>elems := (elems hi0)[i0 := n]\<rparr>" hs0] Cons.prems(5-7) by simp
    also have "int_slots HD rest ((elems hi0)[i0 := n]) = int_slots HD (kv # rest) (elems hi0)"
      unfolding kv v
      by (rule int_slots_self [symmetric, OF dis(2) i0 _ fresh]) (simp add: len Cons.prems(6))
    also have "float_slots HD rest (elems hf0) = float_slots HD (kv # rest) (elems hf0)"
      unfolding kv by (rule float_slots_other [symmetric, OF I(1)]) (simp add: len Cons.prems(5))
    also have "str_slots HD rest hs0 = str_slots HD (kv # rest) hs0"
      unfolding kv by (rule str_slots_other [symmetric, OF kS kN]) (simp add: len Cons.prems(7))
    finally show ?thesis .
  next
    case N
    note kn = wf_kevnm [OF wf]
    obtain s where v: "v = HStr s" and a: "is_ascii (first_half s)" "is_ascii (second_half s)"
      using fitk kn(5,6) unfolding N by (auto simp: fits_def split: hval.splits)
    have fresh': "''kevnm'' \<notin> fst ` set rest" using fresh N by simp
    have "set_headers HD np (kv # rest) (hf0, hi0, hs0) =
          set_headers HD np rest (hf0, hi0, hs0[1 := S8 (first_half s), 2 := S8 (second_half s)])"
      unfolding kv v N by (rule set_headers_kevnm_step [OF kn(5,6,3) _ a]) (simp add: Cons.prems(7))
    also have "\<dots> = Inr (hf0\<lparr>elems := float_slots HD rest (elems hf0)\<rparr>,
           hi0\<lparr>elems := int_slots HD rest (elems hi0)\<rparr>,
           str_slots HD rest (hs0[1 := S8 (first_half s), 2 := S8 (second_half s)]))"
      using IH [of hf0 hi0 "hs0[1 := S8 (first_half s), 2 := S8 (second_half s)]"] Cons.prems(5-7)
      by simp
    also have "str_slots HD rest (hs0[1 := S8 (first_half s), 2 := S8 (second_half s)]) =
               str_slots HD (kv # rest) hs0"
      unfolding kv v N
      by (rule str_slots_kevnm [symmetric, OF wf _ fresh']) (simp add: len Cons.prems(7))
    also have "float_slots HD rest (elems hf0) = float_slots HD (kv # rest) (elems hf0)"
      unfolding kv N by (rule float_slots_other [symmetric, OF kn(5)]) (simp add: len Cons.prems(5))
    also have "int_slots HD rest (elems hi0) = int_slots HD (kv # rest) (elems hi0)"
      unfolding kv N by (rule int_slots_other [symmetric, OF kn(6)]) (simp add: len Cons.prems(6))
    finally show ?thesis .
  next
    case S
    then obtain s where v: "v = HStr s" and a: "is_ascii s"
      using fitk by (auto simp: fits_def split: hval.splits)
    obtain i0 where i0: "index_of (STRHDRS HD) k = Some i0"
      using index_of_mem [OF S(3)] by blast
    have i0l: "i0 < length hs0"
      using index_of_Some_less [OF i0] len Cons.prems(7) by simp
    have "set_headers HD np (kv # rest) (hf0, hi0, hs0) =
          set_headers HD np rest (hf0, hi0, hs0[i0 := S8 s])"
      unfolding kv v by (rule set_headers_str_step [OF S i0 i0l a])
    also have "\<dots> = Inr (hf0\<lparr>elems := float_slots HD rest (elems hf0)\<rparr>,
           hi0\<lparr>elems := int_slots HD rest (elems hi0)\<rparr>, str_slots HD rest (hs0[i0 := S8 s]))"
      using IH [of hf0 hi0 "hs0[i0 := S8 s]"] Cons.prems(5-7) by simp
    also have "str_slots HD rest (hs0[i0 := S8 s]) = str_slots HD (kv # rest) hs0"
      unfolding kv v
      by (rule str_slots_self [symmetric, OF wf i0 S(4) k2' _ fresh]) (simp add: len Cons.prems(7))
    also have "float_slots HD rest (elems hf0) = float_slots HD (kv # rest) (elems hf0)"
      unfolding kv by (rule float_slots_other [symmetric, OF S(1)]) (simp add: len Cons.prems(5))
    also have "int_slots HD rest (elems hi0) = int_slots HD (kv # rest) (elems hi0)"
      unfolding kv by (rule int_slots_other [symmetric, OF S(2)]) (simp add: len Cons.prems(6))
    finally show ?thesis .
  qed
qed

lemma map_of_rev_distinct: "distinct (map fst xs) \<Longrightarrow> map_of (rev xs) = map_of xs"
proof (rule ext)
  fix k
  assume d: "distinct (map fst xs)"
  then have d': "distinct (map fst (rev xs))" by (simp add: rev_map [symmetric])
  show "map_of (rev xs) k = map_of xs k"
  proof (cases "map_of xs k")
    case None
    then have "k \<notin> fst ` set xs" by (simp add: map_of_eq_None_iff)
    then have "map_of (rev xs) k = None" by (simp add: map_of_eq_None_iff)
    then show ?thesis using None by simp
  next
    case (Some v)
    then have "(k, v) \<in> set xs" using d by simp
    then have "(k, v) \<in> set (rev xs)" by simp
    then have "map_of (rev xs) k = Some v" using d' by simp
    then show ?thesis using Some by simp
  qed
qed

text \<open>The pairs kept from a name list zipped with an array, as a function of the name.\<close>

lemma kept_keys:
  "fst ` set (map (\<lambda>(k, v). (k, g v)) (filter (\<lambda>(k, v). P v) (zip names xs))) \<subseteq> set names"
  by (auto dest: set_zip_leftD)

lemma kept_distinct:
  "distinct names \<Longrightarrow>
   distinct (map fst (map (\<lambda>(k, v). (k, g v)) (filter (\<lambda>(k, v). P v) (zip names xs))))"
proof -
  assume d: "distinct names"
  have "fst \<circ> (\<lambda>(k, v). (k, g v)) = fst"
    by (rule ext) (simp add: case_prod_beta)
  then have "map fst (map (\<lambda>(k, v). (k, g v)) (filter (\<lambda>(k, v). P v) (zip names xs))) =
        map fst (filter (\<lambda>(k, v). P v) (zip names xs))"
    by simp
  moreover have "distinct (map fst (filter (\<lambda>(k, v). P v) (zip names xs)))"
    by (rule distinct_map_filter) (simp add: d map_fst_zip_take)
  ultimately show ?thesis by (simp only:)
qed

lemma kept_lookup:
  assumes "distinct names" and "i < length names" and "i < length xs"
  shows "map_of (map (\<lambda>(k, v). (k, g v)) (filter (\<lambda>(k, v). P v) (zip names xs))) (names ! i) =
         (if P (xs ! i) then Some (g (xs ! i)) else None)"
proof (cases "P (xs ! i)")
  case True
  have "(names ! i, xs ! i) \<in> set (zip names xs)"
    using assms(2,3) by (auto simp: set_zip)
  then have "(names ! i, g (xs ! i)) \<in>
      set (map (\<lambda>(k, v). (k, g v)) (filter (\<lambda>(k, v). P v) (zip names xs)))"
    using True by force
  then show ?thesis
    using True kept_distinct [OF assms(1), of g P xs] by simp
next
  case False
  have "names ! i \<notin> fst ` set (map (\<lambda>(k, v). (k, g v)) (filter (\<lambda>(k, v). P v) (zip names xs)))"
  proof
    assume "names ! i \<in> fst ` set (map (\<lambda>(k, v). (k, g v)) (filter (\<lambda>(k, v). P v) (zip names xs)))"
    then obtain v where "(names ! i, v) \<in> set (zip names xs)" and pv: "P v"
      by auto
    then obtain j where j: "j < length names" "j < length xs" "names ! j = names ! i" "xs ! j = v"
      by (auto simp: set_zip)
    then have "j = i" using assms(1,2) by (simp add: nth_eq_iff_index_eq)
    then show False using j(4) pv False by simp
  qed
  then show ?thesis using False by (simp add: map_of_eq_None_iff)
qed

lemma kept_lookup_other:
  "k \<notin> set names \<Longrightarrow>
   map_of (map (\<lambda>(k, v). (k, g v)) (filter (\<lambda>(k, v). P v) (zip names xs))) k = None"
  using kept_keys [of g P names xs] by (auto simp: map_of_eq_None_iff)

lemma str_items_ascii:
  "list_all (\<lambda>(k, v). is_ascii v) kvs \<Longrightarrow> str_items np kvs = Inr (map (\<lambda>(k, v). (k, HStr v)) kvs)"
  by (induction kvs) (auto simp: decode_def)

lemma dict_of_append3:
  assumes "distinct (map fst A)" "distinct (map fst B)" "distinct (map fst C)"
  shows "dict_of (A @ B @ C) k =
    (case map_of C k of Some v \<Rightarrow> Some v
     | None \<Rightarrow> (case map_of B k of Some v \<Rightarrow> Some v | None \<Rightarrow> map_of A k))"
  by (simp add: dict_of_def map_of_rev_distinct [OF assms(1)] map_of_rev_distinct [OF assms(2)]
      map_of_rev_distinct [OF assms(3)] map_add_def split: option.splits)

lemma header_arrays_to_dict_ascii:
  assumes "\<forall>v \<in> set hs. v \<noteq> SNULL HD \<longrightarrow> is_ascii v"
  shows "header_arrays_to_dict HD np hf hi hs False =
           merge_kevnm np (unmerged HD (elems hf) (elems hi) hs)"
proof -
  have "list_all (\<lambda>(k, v). is_ascii v) (filter (\<lambda>(key, val). val \<noteq> SNULL HD) (zip (STRHDRS HD) hs))"
    using assms by (auto simp: list_all_iff dest: set_zip_rightD)
  then have "str_items np (filter (\<lambda>(key, val). val \<noteq> SNULL HD) (zip (STRHDRS HD) hs)) =
      Inr (map (\<lambda>(k, v). (k, HStr v)) (filter (\<lambda>(key, val). val \<noteq> SNULL HD) (zip (STRHDRS HD) hs)))"
    by (rule str_items_ascii)
  then show ?thesis
    by (simp add: header_arrays_to_dict_def unmerged_def)
qed

lemma unmerged_lookup:
  assumes wf: "wf_tables HD"
  shows "unmerged HD hf hi hs k =
    (case map_of (map (\<lambda>(key, val). (key, HStr val))
            (filter (\<lambda>(key, val). val \<noteq> SNULL HD) (zip (STRHDRS HD) hs))) k of
       Some v \<Rightarrow> Some v
     | None \<Rightarrow>
        (case map_of (map (\<lambda>(key, val). (key, HInt val))
            (filter (\<lambda>(key, val). val \<noteq> INULL HD) (zip (INTHDRS HD) hi))) k of
           Some v \<Rightarrow> Some v
         | None \<Rightarrow> map_of (map (\<lambda>(key, val). (key, HFloat val))
            (filter (\<lambda>(key, val). val \<noteq> FNULL HD) (zip (FLOATHDRS HD) hf))) k))"
  unfolding unmerged_def
  by (rule dict_of_append3)
     (rule kept_distinct, rule wf_distinct [OF wf])+

lemma unmerged_float:
  assumes wf: "wf_tables HD" and "i < 70" and "length hf = 70"
  shows "unmerged HD hf hi hs (FLOATHDRS HD ! i) =
           (if hf ! i \<noteq> FNULL HD then Some (HFloat (hf ! i)) else None)"
proof -
  note d = wf_distinct [OF wf] and l = wf_lengths [OF wf]
  have k: "FLOATHDRS HD ! i \<in> set (FLOATHDRS HD)" using assms(2) l by simp
  then have kI: "FLOATHDRS HD ! i \<notin> set (INTHDRS HD)" and kS: "FLOATHDRS HD ! i \<notin> set (STRHDRS HD)"
    using d(4,5) by auto
  have "i < length (FLOATHDRS HD)" "i < length hf" using assms l by simp_all
  note lk = kept_lookup [OF d(1) this, of HFloat "\<lambda>v. v \<noteq> FNULL HD"]
  show ?thesis
    unfolding unmerged_lookup [OF wf] kept_lookup_other [OF kI] kept_lookup_other [OF kS] lk
    by simp
qed

lemma unmerged_int:
  assumes wf: "wf_tables HD" and "i < 40" and "length hi = 40"
  shows "unmerged HD hf hi hs (INTHDRS HD ! i) =
           (if hi ! i \<noteq> INULL HD then Some (HInt (hi ! i)) else None)"
proof -
  note d = wf_distinct [OF wf] and l = wf_lengths [OF wf]
  have k: "INTHDRS HD ! i \<in> set (INTHDRS HD)" using assms(2) l by simp
  then have kF: "INTHDRS HD ! i \<notin> set (FLOATHDRS HD)" and kS: "INTHDRS HD ! i \<notin> set (STRHDRS HD)"
    using d(4,6) by auto
  have "i < length (INTHDRS HD)" "i < length hi" using assms l by simp_all
  note lk = kept_lookup [OF d(2) this, of HInt "\<lambda>v. v \<noteq> INULL HD"]
  show ?thesis
    unfolding unmerged_lookup [OF wf] kept_lookup_other [OF kF] kept_lookup_other [OF kS] lk
    by simp
qed

lemma unmerged_str:
  assumes wf: "wf_tables HD" and "i < 24" and "length hs = 24"
  shows "unmerged HD hf hi hs (STRHDRS HD ! i) =
           (if hs ! i \<noteq> SNULL HD then Some (HStr (hs ! i)) else None)"
proof -
  note d = wf_distinct [OF wf] and l = wf_lengths [OF wf]
  have k: "STRHDRS HD ! i \<in> set (STRHDRS HD)" using assms(2) l by simp
  then have kF: "STRHDRS HD ! i \<notin> set (FLOATHDRS HD)" and kI: "STRHDRS HD ! i \<notin> set (INTHDRS HD)"
    using d(5,6) by auto
  have "i < length (STRHDRS HD)" "i < length hs" using assms l by simp_all
  note lk = kept_lookup [OF d(3) this, of HStr "\<lambda>v. v \<noteq> SNULL HD"]
  show ?thesis
    unfolding unmerged_lookup [OF wf] kept_lookup_other [OF kF] kept_lookup_other [OF kI] lk
    by (simp split: option.splits)
qed

lemma unmerged_other:
  assumes wf: "wf_tables HD" and "k \<notin> set (header_names HD)"
  shows "unmerged HD hf hi hs k = None"
proof -
  have kF: "k \<notin> set (FLOATHDRS HD)" and kI: "k \<notin> set (INTHDRS HD)" and kS: "k \<notin> set (STRHDRS HD)"
    using assms(2) by (auto simp: header_names_def)
  show ?thesis
    unfolding unmerged_lookup [OF wf] kept_lookup_other [OF kF] kept_lookup_other [OF kI]
      kept_lookup_other [OF kS]
    by simp
qed

lemma init_three_arrays:
  assumes wf: "wf_tables HD" and bo: "dtype_order_of native byteorder = Inr bo"
  shows "init_header_arrays HD native [''float'', ''int'', ''str''] byteorder =
     Inr [HF \<lparr>dtype_order = bo, elems = replicate 70 (FNULL HD)\<rparr>,
          HI \<lparr>dtype_order = bo, elems = null_int_header HD\<rparr>,
          HS (replicate 24 (SNULL HD))]"
proof -
  have l: "length (INTHDRS HD) \<le> 40" using wf_lengths(2) [OF wf] by simp
  obtain k where k: "index_of (INTHDRS HD) ''lcalda'' = Some k"
    using index_of_mem [of "''lcalda''" "INTHDRS HD"] wf unfolding wf_tables_def by blast
  have s: "S8 (SNULL HD) = SNULL HD" using wf unfolding wf_tables_def by blast
  have "init_array HD native itype byteorder = Inr (null_array HD bo itype)"
    if "itype \<in> {''float'', ''int'', ''str''}" for itype
    using init_array_recognized [OF bo l k s that] .
  then show ?thesis by (simp add: null_array_def)
qed

lemma length_null_int_header: "length (null_int_header HD) = 40"
  by (simp add: null_int_header_def)

lemma dict_to_header_arrays_fits:
  assumes wf: "wf_tables HD" and bo: "dtype_order_of native byteorder = Inr bo"
    and "distinct (map fst h)" and "set (map fst h) \<subseteq> set (header_names HD)"
    and "''kevnm2'' \<notin> set (map fst h)" and "list_all (\<lambda>(k, v). fits HD k v) h"
  shows "dict_to_header_arrays HD np native (Some h) byteorder =
     Inr (\<lparr>dtype_order = bo, elems = float_slots HD h (replicate 70 (FNULL HD))\<rparr>,
          \<lparr>dtype_order = bo, elems = int_slots HD h (null_int_header HD)\<rparr>,
          str_slots HD h (replicate 24 (SNULL HD)))"
  unfolding dict_to_header_arrays_def init_three_arrays [OF wf bo]
  using set_headers_fits [OF wf assms(3-6), of "\<lparr>dtype_order = bo, elems = replicate 70 (FNULL HD)\<rparr>"
      "\<lparr>dtype_order = bo, elems = null_int_header HD\<rparr>" "replicate 24 (SNULL HD)" np]
  by (simp add: length_null_int_header)

lemma fits_lookup:
  "list_all (\<lambda>(k, v). fits HD k v) h \<Longrightarrow> map_of h k = Some v \<Longrightarrow> fits HD k v"
  by (auto simp: list_all_iff dest: map_of_SomeD)

lemma roundtrip_expected:
  assumes wf: "wf_tables HD" and bo: "dtype_order_of native byteorder = Inr bo"
    and dist: "distinct (map fst h)" and sub: "set (map fst h) \<subseteq> set (header_names HD)"
    and k2: "''kevnm2'' \<notin> set (map fst h)" and fit: "list_all (\<lambda>(k, v). fits HD k v) h"
  shows "roundtrip HD np native h byteorder = Inr (expected HD h)"
proof -
  let ?hf = "float_slots HD h (replicate 70 (FNULL HD))"
  let ?hi = "int_slots HD h (null_int_header HD)"
  let ?hs = "str_slots HD h (replicate 24 (SNULL HD))"
  let ?U = "unmerged HD ?hf ?hi ?hs"
  note d = wf_distinct [OF wf] and l = wf_lengths [OF wf] and kn = wf_kevnm [OF wf]
  note fl = fits_lookup [OF fit]
  have lens: "length ?hf = 70" "length ?hi = 40" "length ?hs = 24"
    by (simp_all add: length_float_slots length_int_slots length_str_slots length_null_int_header)
  \<comment> \<open>the elements of the three arrays\<close>
  have hf: "?hf ! i = float_or (map_of h (FLOATHDRS HD ! i)) (FNULL HD)" if "i < 70" for i
    using that by (simp add: float_slots_def)
  have hi: "?hi ! i = int_or (map_of h (INTHDRS HD ! i)) (null_int_header HD ! i)" if "i < 40" for i
    using that by (simp add: int_slots_def length_null_int_header)
  have hs1: "?hs ! 1 = str_or (\<lambda>s. S8 (first_half s)) (map_of h ''kevnm'') (SNULL HD)"
    by (simp add: str_slots_def)
  have hs2: "?hs ! 2 = str_or (\<lambda>s. S8 (second_half s)) (map_of h ''kevnm'') (SNULL HD)"
    by (simp add: str_slots_def)
  have hs: "?hs ! i = str_or S8 (map_of h (STRHDRS HD ! i)) (SNULL HD)"
    if "i < 24" "i \<noteq> 1" "i \<noteq> 2" for i
    using that by (simp add: str_slots_def)
  \<comment> \<open>what the dictionary holds at the name field\<close>
  have name_cases: "map_of h ''kevnm'' = None \<or>
      (\<exists>s. map_of h ''kevnm'' = Some (HStr s) \<and> is_ascii (first_half s) \<and> is_ascii (second_half s) \<and>
           S8 (first_half s) = first_half s \<and> S8 (second_half s) = second_half s)"
  proof (cases "map_of h ''kevnm''")
    case None
    then show ?thesis by simp
  next
    case (Some v)
    then show ?thesis
      using fl [OF Some] kn(5,6) by (auto simp: fits_def split: hval.splits)
  qed
  \<comment> \<open>every string kept is ASCII\<close>
  have ascii: "\<forall>v \<in> set ?hs. v \<noteq> SNULL HD \<longrightarrow> is_ascii v"
  proof (intro ballI impI)
    fix v assume "v \<in> set ?hs" and nn: "v \<noteq> SNULL HD"
    then obtain i where i: "i < 24" "?hs ! i = v"
      using lens(3) by (auto simp: in_set_conv_nth)
    consider "i = 1" | "i = 2" | "i \<noteq> 1" "i \<noteq> 2" by blast
    then show "is_ascii v"
    proof cases
      case 1
      then show ?thesis using i(2) hs1 name_cases nn by auto
    next
      case 2
      then show ?thesis using i(2) hs2 name_cases nn by auto
    next
      case 3
      have kS: "STRHDRS HD ! i \<in> set (STRHDRS HD)" using i(1) l by simp
      then have kF: "STRHDRS HD ! i \<notin> set (FLOATHDRS HD)" and kI: "STRHDRS HD ! i \<notin> set (INTHDRS HD)"
        using d(5,6) by auto
      have kN: "STRHDRS HD ! i \<noteq> ''kevnm''"
        using nth_eq_iff_index_eq [OF d(3), of i 1] i(1) 3(1) l kn(1) by simp
      show ?thesis
      proof (cases "map_of h (STRHDRS HD ! i)")
        case None
        then show ?thesis using hs [OF i(1) 3] i(2) nn by simp
      next
        case (Some w)
        then show ?thesis
          using fl [OF Some] kF kI kN hs [OF i(1) 3] i(2)
          by (auto simp: fits_def split: hval.splits)
      qed
    qed
  qed
  have rt: "roundtrip HD np native h byteorder = merge_kevnm np ?U"
    unfolding roundtrip_def dict_to_header_arrays_fits [OF wf bo dist sub k2 fit]
    using header_arrays_to_dict_ascii [OF ascii, of np
        "\<lparr>dtype_order = bo, elems = ?hf\<rparr>" "\<lparr>dtype_order = bo, elems = ?hi\<rparr>"]
    by simp
  \<comment> \<open>the unmerged dictionary at the keys other than the two name fields\<close>
  have others: "?U k = expected HD h k" if nk: "k \<noteq> ''kevnm''" "k \<noteq> ''kevnm2''" for k
  proof -
    consider (F) "k \<in> set (FLOATHDRS HD)" | (I) "k \<in> set (INTHDRS HD)" | (S) "k \<in> set (STRHDRS HD)"
      | (O) "k \<notin> set (header_names HD)"
      by (auto simp: header_names_def)
    then show ?thesis
    proof cases
      case F
      then obtain i where i: "i < 70" "FLOATHDRS HD ! i = k"
        using l by (auto simp: in_set_conv_nth)
      have kI: "k \<notin> set (INTHDRS HD)" using F d(4) by auto
      have U: "?U k = (if ?hf ! i \<noteq> FNULL HD then Some (HFloat (?hf ! i)) else None)"
        using unmerged_float [OF wf i(1) lens(1), of ?hi ?hs] i(2) by simp
      show ?thesis
      proof (cases "map_of h k")
        case None
        then show ?thesis
          using U hf [OF i(1)] i(2) nk kI
          by (simp add: expected_def default_of_def index_of_None_iff [THEN iffD2])
      next
        case (Some v)
        then obtain x where "v = HFloat x"
          using fl [OF Some] F by (auto simp: fits_def split: hval.splits)
        then show ?thesis
          using U hf [OF i(1)] i(2) nk Some F by (auto simp: expected_def null_of_def)
      qed
    next
      case I
      then obtain i where i: "i < 40" "INTHDRS HD ! i = k"
        using l by (auto simp: in_set_conv_nth)
      have kF: "k \<notin> set (FLOATHDRS HD)" using I d(4) by auto
      have ix: "index_of (INTHDRS HD) k = Some i"
        using index_of_nth_distinct [OF d(2), of i] i l by simp
      have U: "?U k = (if ?hi ! i \<noteq> INULL HD then Some (HInt (?hi ! i)) else None)"
        using unmerged_int [OF wf i(1) lens(2), of ?hf ?hs] i(2) by simp
      show ?thesis
      proof (cases "map_of h k")
        case None
        then show ?thesis
          using U hi [OF i(1)] i(2) nk ix
          by (simp add: expected_def default_of_def Let_def)
      next
        case (Some v)
        then obtain n where "v = HInt n"
          using fl [OF Some] I kF by (auto simp: fits_def split: hval.splits)
        then show ?thesis
          using U hi [OF i(1)] i(2) nk Some I kF by (auto simp: expected_def null_of_def)
      qed
    next
      case S
      then obtain i where i: "i < 24" "STRHDRS HD ! i = k"
        using l by (auto simp: in_set_conv_nth)
      have i12: "i \<noteq> 1" "i \<noteq> 2" using i(2) nk kn(1,2) by auto
      have kF: "k \<notin> set (FLOATHDRS HD)" and kI: "k \<notin> set (INTHDRS HD)"
        using S d(5,6) by auto
      have U: "?U k = (if ?hs ! i \<noteq> SNULL HD then Some (HStr (?hs ! i)) else None)"
        using unmerged_str [OF wf i(1) lens(3), of ?hf ?hi] i(2) by simp
      show ?thesis
      proof (cases "map_of h k")
        case None
        then show ?thesis
          using U hs [OF i(1) i12] i(2) nk kI
          by (simp add: expected_def default_of_def index_of_None_iff [THEN iffD2])
      next
        case (Some v)
        then obtain s where "v = HStr s" "S8 s = s"
          using fl [OF Some] kF kI nk by (auto simp: fits_def split: hval.splits)
        then show ?thesis
          using U hs [OF i(1) i12] i(2) nk Some kF kI by (auto simp: expected_def null_of_def)
      qed
    next
      case O
      then have "k \<notin> set (map fst h)" using sub by auto
      then have n: "map_of h k = None" by (simp add: map_of_eq_None_iff)
      have kI: "k \<notin> set (INTHDRS HD)" using O by (simp add: header_names_def)
      show ?thesis
        using unmerged_other [OF wf O, of ?hf ?hi ?hs] n nk kI
        by (simp add: expected_def default_of_def index_of_None_iff [THEN iffD2])
    qed
  qed
  \<comment> \<open>the two name fields\<close>
  have U1: "?U ''kevnm'' = (if ?hs ! 1 \<noteq> SNULL HD then Some (HStr (?hs ! 1)) else None)"
    using unmerged_str [OF wf _ lens(3), of 1 ?hf ?hi] kn(1) by simp
  have U2: "?U ''kevnm2'' = (if ?hs ! 2 \<noteq> SNULL HD then Some (HStr (?hs ! 2)) else None)"
    using unmerged_str [OF wf _ lens(3), of 2 ?hf ?hi] kn(2) by simp
  have "merge_kevnm np ?U = Inr (expected HD h)"
  proof -
    from name_cases show ?thesis
    proof
      assume n: "map_of h ''kevnm'' = None"
      then have "?U ''kevnm2'' = None" "?U ''kevnm'' = None"
        using U1 U2 hs1 hs2 by simp_all
      then have "merge_kevnm np ?U = Inr ?U" "?U ''kevnm2'' = expected HD h ''kevnm2''"
        "?U ''kevnm'' = expected HD h ''kevnm''"
        using n by (simp_all add: merge_kevnm_def expected_def)
      moreover have "?U = expected HD h"
        using others calculation(2,3) by (intro ext) metis
      ultimately show ?thesis by simp
    next
      assume "\<exists>s. map_of h ''kevnm'' = Some (HStr s) \<and> is_ascii (first_half s) \<and>
        is_ascii (second_half s) \<and> S8 (first_half s) = first_half s \<and>
        S8 (second_half s) = second_half s"
      then obtain s where s: "map_of h ''kevnm'' = Some (HStr s)"
        "S8 (first_half s) = first_half s" "S8 (second_half s) = second_half s"
        by blast
      have a1: "?hs ! 1 = first_half s" and a2: "?hs ! 2 = second_half s"
        using hs1 hs2 s by simp_all
      have e1: "expected HD h ''kevnm'' = joined_name HD s" and e2: "expected HD h ''kevnm2'' = None"
        using s(1) by (simp_all add: expected_def)
      show ?thesis
      proof (cases "second_half s = SNULL HD")
        case True
        then have "merge_kevnm np ?U = Inr ?U" "?U ''kevnm2'' = expected HD h ''kevnm2''"
          "?U ''kevnm'' = expected HD h ''kevnm''"
          using U1 U2 a1 a2 e1 e2 by (simp_all add: merge_kevnm_def joined_name_def)
        moreover have "?U = expected HD h"
          using others calculation(2,3) by (intro ext) metis
        ultimately show ?thesis by simp
      next
        case False
        let ?v = "if first_half s \<noteq> SNULL HD then HStr (first_half s @ second_half s)
                  else HStr (second_half s)"
        have m: "merge_kevnm np ?U = Inr ((?U(''kevnm2'' := None))(''kevnm'' \<mapsto> ?v))"
          using False U1 U2 a1 a2 by (simp add: merge_kevnm_def py_add_def)
        have "(?U(''kevnm2'' := None))(''kevnm'' \<mapsto> ?v) = expected HD h"
        proof (rule ext)
          fix k
          show "((?U(''kevnm2'' := None))(''kevnm'' \<mapsto> ?v)) k = expected HD h k"
          proof (cases "k = ''kevnm'' \<or> k = ''kevnm2''")
            case True
            then show ?thesis using e1 e2 False by (auto simp: joined_name_def)
          next
            case False
            then show ?thesis using others [of k] by simp
          qed
        qed
        then show ?thesis using m by simp
      qed
    qed
  qed
  then show ?thesis using rt by simp
qed

lemma wf_sac_tables: "wf_tables (sac_tables fnull)"
  by (simp add: wf_tables_def header_names_def sac_tables_def S8_def rstrip_nul_def)

lemma native_order: "dtype_order_of native ''='' = Inr native"
  by (simp add: dtype_order_of_def)

lemma merge_kevnm_no_kevnm2: "merge_kevnm np m = Inr r \<Longrightarrow> r ''kevnm2'' = None"
  by (auto simp: merge_kevnm_def split: option.splits sum.splits)

lemma header_arrays_to_dict_no_kevnm2:
  "header_arrays_to_dict HD np hf hi hs nulls = Inr r \<Longrightarrow> r ''kevnm2'' = None"
  by (auto simp: header_arrays_to_dict_def Let_def merge_kevnm_no_kevnm2 split: sum.splits)

lemma halves_of_16: "length name = 16 \<Longrightarrow> first_half name @ second_half name = name"
  by (simp add: first_half_def second_half_def ljust8_def)

lemma halves_of_short:
  "length name \<le> 8 \<Longrightarrow>
   first_half name @ second_half name = name @ replicate (16 - length name) (CHR '' '')"
proof -
  assume l: "length name \<le> 8"
  have "replicate (8 - length name) (CHR '' '') @ replicate 8 (CHR '' '') =
        replicate (16 - length name) (CHR '' '')"
    using l by (simp add: replicate_add [symmetric] del: replicate_add)
  then show ?thesis using l by (simp add: first_half_def second_half_def ljust8_def)
qed

text \<open>
  Claim C2, as amended. For header tables of the SAC layout and a dictionary with distinct
  keys, all of them header names other than \<open>kevnm2\<close>, whose values fit their fields:
  dict_to_header_arrays followed by header_arrays_to_dict (without nulls) returns the
  dictionary \<open>expected\<close>: every key other than \<open>kevnm\<close> that the dictionary sets to a
  value that is not the null value of its kind, with that value; every field the dictionary
  does not set whose default is not null (the logical int fields, 0, and \<open>lcalda\<close>, 1),
  with the default; under \<open>kevnm\<close>, when the dictionary sets it, the two halves of the
  event name, each of eight characters and padded with spaces, joined, where a half that
  is the null string is dropped: the other half alone when one half is null, and no key
  when both are; and nothing else.
\<close>

theorem roundtrip_returns_expected:
  assumes "wf_tables HD" and "dtype_order_of native byteorder = Inr bo"
    and "distinct (map fst header)" and "set (map fst header) \<subseteq> set (header_names HD)"
    and "''kevnm2'' \<notin> set (map fst header)" and "list_all (\<lambda>(k, v). fits HD k v) header"
  shows "roundtrip HD np native header byteorder = Inr (expected HD header)"
  using assms by (rule roundtrip_expected)

lemma example_header_fits: "list_all (\<lambda>(k, v). fits sac_header k v) example_header"
  by (simp add: example_header_def fits_def sac_header_def sac_tables_def is_ascii_def
      first_half_def second_half_def ljust8_def S8_def rstrip_nul_def)

lemma example_header_keys: "set (map fst example_header) \<subseteq> set (header_names sac_header)"
  by (simp add: example_header_def header_names_def sac_header_def sac_tables_def)

theorem roundtrip_returns_expected_witness:
  "roundtrip sac_header strict_numpy Little example_header ''='' = Inr (expected sac_header example_header)
   \<and> expected sac_header example_header ''kevnm'' = Some (HStr ''ABCDEFGH12345678'')
   \<and> expected sac_header example_header ''delta'' = Some (HFloat 5)
   \<and> expected sac_header example_header ''lcalda'' = None
   \<and> expected sac_header example_header ''leven'' = Some (HInt 0)
   \<and> expected sac_header example_header ''depmin'' = None
   \<and> expected sac_header [(''kevnm'', HStr ''-12345  ABCDEFGH'')] ''kevnm'' = Some (HStr ''ABCDEFGH'')"
proof -
  have wf: "wf_tables sac_header" unfolding sac_header_def by (rule wf_sac_tables)
  have d: "distinct (map fst example_header)" by (simp add: example_header_def)
  have k2: "''kevnm2'' \<notin> set (map fst example_header)" by (simp add: example_header_def)
  have e: "expected sac_header example_header ''kevnm'' = Some (HStr ''ABCDEFGH12345678'')
     \<and> expected sac_header example_header ''delta'' = Some (HFloat 5)
     \<and> expected sac_header example_header ''lcalda'' = None
     \<and> expected sac_header example_header ''leven'' = Some (HInt 0)
     \<and> expected sac_header example_header ''depmin'' = None
   \<and> expected sac_header [(''kevnm'', HStr ''-12345  ABCDEFGH'')] ''kevnm'' = Some (HStr ''ABCDEFGH'')"
    by code_simp
  show ?thesis
    using roundtrip_returns_expected [OF wf native_order d example_header_keys k2 example_header_fits,
        of strict_numpy] e
    by simp
qed

text \<open>
  The claim C2 as it was stated fails on the empty dictionary: the round trip returns
  the key \<open>lcalda\<close>, with the value 1, which the dictionary did not hold. It fails
  as well on a value that does not fit its field: a station name of ten characters comes
  back cut to eight.
\<close>

theorem roundtrip_adds_defaults:
  "dict_get (roundtrip sac_header strict_numpy Little [] ''='') ''lcalda'' = Inr (Some (HInt 1))
   \<and> dict_get (roundtrip sac_header strict_numpy Little [(''kstnm'', HStr ''ABCDEFGHIJ'')] ''='')
       ''kstnm'' = Inr (Some (HStr ''ABCDEFGH''))"
  by code_simp

text \<open>
  Claim C6, as amended. For header tables of the SAC layout and a dictionary of fitting
  values, without the key \<open>kevnm2\<close>, that holds an event name neither half of which is the
  null string: the round trip returns, under \<open>kevnm\<close>, the two halves of the name, each
  of eight characters and padded with spaces, joined; that is the name itself when it has
  16 characters, and the name padded with spaces to 16 characters when it has 8 or fewer.
  It returns no key \<open>kevnm2\<close>; and header_arrays_to_dict never returns one, whatever the
  arrays.
\<close>

theorem kevnm_roundtrip:
  assumes "wf_tables HD" and "dtype_order_of native byteorder = Inr bo"
    and "distinct (map fst header)" and "set (map fst header) \<subseteq> set (header_names HD)"
    and "''kevnm2'' \<notin> set (map fst header)" and "list_all (\<lambda>(k, v). fits HD k v) header"
    and "map_of header ''kevnm'' = Some (HStr name)"
    and "first_half name \<noteq> SNULL HD" and "second_half name \<noteq> SNULL HD"
  shows "dict_get (roundtrip HD np native header byteorder) ''kevnm'' =
           Inr (Some (HStr (first_half name @ second_half name)))
       \<and> dict_get (roundtrip HD np native header byteorder) ''kevnm2'' = Inr None
       \<and> (length name = 16 \<longrightarrow> first_half name @ second_half name = name)
       \<and> (length name \<le> 8 \<longrightarrow>
            first_half name @ second_half name = name @ replicate (16 - length name) (CHR '' ''))
       \<and> (\<forall>hf hi hs nulls r.
            header_arrays_to_dict HD np hf hi hs nulls = Inr r \<longrightarrow> r ''kevnm2'' = None)"
proof -
  have r: "roundtrip HD np native header byteorder = Inr (expected HD header)"
    using assms(1-6) by (rule roundtrip_expected)
  have a: "expected HD header ''kevnm'' = Some (HStr (first_half name @ second_half name))"
    using assms(7-9) by (simp add: expected_def joined_name_def)
  have b: "expected HD header ''kevnm2'' = None"
    by (simp add: expected_def)
  show ?thesis
    using r a b halves_of_16 [of name] halves_of_short [of name]
      header_arrays_to_dict_no_kevnm2 [of HD np]
    by (simp add: dict_get_def)
qed

theorem kevnm_roundtrip_witness:
  "dict_get (roundtrip sac_header strict_numpy Little short_name_header ''='') ''kevnm'' =
     Inr (Some (HStr ''Tohoku          ''))
   \<and> dict_get (roundtrip sac_header strict_numpy Little short_name_header ''='') ''kevnm2'' = Inr None"
proof -
  have wf: "wf_tables sac_header" unfolding sac_header_def by (rule wf_sac_tables)
  have d: "distinct (map fst short_name_header)" by (simp add: short_name_header_def)
  have k: "set (map fst short_name_header) \<subseteq> set (header_names sac_header)"
    by (simp add: short_name_header_def header_names_def sac_header_def sac_tables_def)
  have k2: "''kevnm2'' \<notin> set (map fst short_name_header)" by (simp add: short_name_header_def)
  have f: "list_all (\<lambda>(k, v). fits sac_header k v) short_name_header"
    by code_simp
  have m: "map_of short_name_header ''kevnm'' = Some (HStr ''Tohoku'')"
    by (simp add: short_name_header_def)
  have n1: "first_half ''Tohoku'' \<noteq> SNULL sac_header"
    and n2: "second_half ''Tohoku'' \<noteq> SNULL sac_header"
    by code_simp+
  have e: "first_half ''Tohoku'' @ second_half ''Tohoku'' = ''Tohoku          ''"
    by code_simp
  show ?thesis
    using kevnm_roundtrip [OF wf native_order d k k2 f m n1 n2, of strict_numpy] e
    by simp
qed

text \<open>
  The claim C6 as it was stated fails: the name \<open>abc\<close> comes back padded to 16
  characters, not unchanged; and a name of 16 characters whose first half is the null
  string comes back as its second half alone.
\<close>

theorem kevnm_not_unchanged:
  "dict_get (roundtrip sac_header strict_numpy Little [(''kevnm'', HStr ''abc'')] ''='') ''kevnm'' =
     Inr (Some (HStr ''abc             ''))
   \<and> dict_get (roundtrip sac_header strict_numpy Little [(''kevnm'', HStr ''abc'')] ''='') ''kevnm'' \<noteq>
     Inr (Some (HStr ''abc''))
   \<and> dict_get (roundtrip sac_header strict_numpy Little [(''kevnm'', HStr ''-12345  ABCDEFGH'')] ''='')
       ''kevnm'' = Inr (Some (HStr ''ABCDEFGH''))"
  by code_simp


end
